theory Spec2Isabelle
  imports Main
begin

section \<open>The JSON extension of SQLite (ext/misc/json.c), embedded in HOL\<close>

text \<open>
  The development follows the C source function by function. Conventions:
  \<^item> A C string is a \<open>char list\<close> without its terminator; reading at or past its end
    gives the terminating NUL (\<open>zAt\<close>).
  \<^item> Sizes and indices (\<open>u32\<close>, \<open>u64\<close>, \<open>int\<close>) are \<open>nat\<close> or \<open>int\<close>. Where the control
    flow depends on the width of a C type, the conversion is written out: the \<open>u32\<close>
    arithmetic of the new size of the node array, the conversion of the byte count of
    that array to the \<open>int\<close> parameter of \<open>sqlite3_realloc\<close>, and the conversion of the
    result \<open>-1\<close> of \<open>jsonParseAddNode\<close> to the \<open>u32\<close> variable \<open>iThis\<close>. Elsewhere the
    numbers stay below \<open>2^31\<close> for texts shorter than \<open>2^31\<close> bytes.
  \<^item> The memory allocator is a parameter \<open>M\<close>: \<open>M n\<close> tells whether a request for
    \<open>n\<close> bytes is granted.
  \<^item> A write or read outside the object it addresses is the outcome \<open>Undefined\<close>.
  \<^item> The two recursive routines (\<open>jsonParseValue\<close>, \<open>jsonRenderNode\<close>) take a fuel
    argument that bounds the depth of their call chains; \<open>OutOfFuel\<close> is the outcome
    of a run that needs more.
\<close>

subsection \<open>Outcomes\<close>

datatype 'a outcome = OutOfFuel | Undefined | Done 'a

fun andThen :: "'a outcome \<Rightarrow> ('a \<Rightarrow> 'b outcome) \<Rightarrow> 'b outcome" where
  "andThen OutOfFuel k = OutOfFuel"
| "andThen Undefined k = Undefined"
| "andThen (Done a) k = k a"

subsection \<open>Characters and C strings\<close>

abbreviation (input) NUL :: char where "NUL \<equiv> CHR 0x00"
abbreviation (input) DQUOTE :: char where "DQUOTE \<equiv> CHR 0x22"
abbreviation (input) BACKSLASH :: char where "BACKSLASH \<equiv> CHR 0x5C"

definition zAt :: "string \<Rightarrow> nat \<Rightarrow> char" where
  "zAt z i = (if i < length z then z ! i else NUL)"

text \<open>The classification functions of \<open>ctype.h\<close> in the C locale.\<close>

definition is_digit :: "char \<Rightarrow> bool" where
  "is_digit c = ((48::nat) \<le> of_char c \<and> of_char c \<le> (57::nat))"

definition isspace :: "char \<Rightarrow> bool" where
  "isspace c = (c = CHR 0x20 \<or> ((9::nat) \<le> of_char c \<and> of_char c \<le> (13::nat)))"

definition isalnum :: "char \<Rightarrow> bool" where
  "isalnum c = (is_digit c
     \<or> ((65::nat) \<le> of_char c \<and> of_char c \<le> (90::nat))
     \<or> ((97::nat) \<le> of_char c \<and> of_char c \<le> (122::nat)))"

subsection \<open>The host: function context and argument values\<close>

text \<open>
  What a \<open>sqlite3_context\<close> holds for this file is the result slot that the
  \<open>sqlite3_result_*\<close> calls overwrite.
\<close>

datatype sqlite3_result =
    NoResult
  | ResultNull
  | ResultInt int
  | ResultText string
  | ResultError string
  | ResultErrorNomem

text \<open>
  An argument value: its type tag and, for the types that are read through
  \<open>sqlite3_value_text\<close> / \<open>sqlite3_value_bytes\<close>, the bytes these return.
\<close>

datatype sqlite3_value =
    SQLITE_NULL
  | SQLITE_INTEGER string
  | SQLITE_FLOAT string
  | SQLITE_TEXT string
  | SQLITE_BLOB string

subsection \<open>The string accumulator \<open>Json\<close>\<close>

text \<open>
  \<open>zBuf\<close> is the array that the pointer \<open>zBuf\<close> addresses (the inline array
  \<open>zSpace\<close> while \<open>bStatic\<close>), bytes at and after \<open>nUsed\<close> included. \<open>pCtx\<close> is the
  result slot of the context the accumulator reports to.
\<close>

record Json =
  pCtx :: sqlite3_result
  zBuf :: "char list"
  nAlloc :: nat
  nUsed :: nat
  bStatic :: bool
  oom :: bool

definition SQLITE_OK :: int where "SQLITE_OK = 0"
definition SQLITE_NOMEM :: int where "SQLITE_NOMEM = 7"

definition jsonZero :: "Json \<Rightarrow> Json" where
  "jsonZero p = p\<lparr>zBuf := replicate 100 NUL, Json.nAlloc := 100, nUsed := 0, bStatic := True\<rparr>"

definition jsonInit :: "sqlite3_result \<Rightarrow> Json" where
  "jsonInit ctx = jsonZero
     \<lparr>pCtx = ctx, zBuf = [], Json.nAlloc = 0, nUsed = 0, bStatic = False, Json.oom = False\<rparr>"

definition jsonReset :: "Json \<Rightarrow> Json" where
  "jsonReset p = jsonZero p"

definition jsonOom :: "Json \<Rightarrow> Json" where
  "jsonOom p = jsonReset (p\<lparr>Json.oom := True, pCtx := ResultErrorNomem\<rparr>)"

text \<open>
  \<open>jsonGrow\<close>: the new storage keeps the first \<open>nUsed\<close> bytes (\<open>memcpy\<close>, or what
  \<open>realloc\<close> preserves); copying more bytes than either array holds is undefined.
\<close>

definition jsonGrow :: "(nat \<Rightarrow> bool) \<Rightarrow> Json \<Rightarrow> nat \<Rightarrow> (int \<times> Json) outcome" where
  "jsonGrow M p N =
    (let nTotal = (if N < Json.nAlloc p then Json.nAlloc p * 2 else Json.nAlloc p + N + 100) in
     if bStatic p then
       (if Json.oom p then Done (SQLITE_NOMEM, p)
        else if \<not> M nTotal then Done (SQLITE_NOMEM, jsonOom p)
        else if nUsed p \<le> length (zBuf p) \<and> nUsed p \<le> nTotal then
          Done (SQLITE_OK,
            p\<lparr>zBuf := take (nUsed p) (zBuf p) @ replicate (nTotal - nUsed p) NUL,
              bStatic := False, Json.nAlloc := nTotal\<rparr>)
        else Undefined)
     else
       (if \<not> M nTotal then Done (SQLITE_NOMEM, jsonOom p)
        else Done (SQLITE_OK,
            p\<lparr>zBuf := take nTotal (zBuf p) @ replicate (nTotal - length (zBuf p)) NUL,
              Json.nAlloc := nTotal\<rparr>)))"

text \<open>\<open>memcpy(p->zBuf+p->nUsed, zIn, N); p->nUsed += N\<close>, with \<open>N = length zIn\<close>.\<close>

definition copy_in :: "Json \<Rightarrow> string \<Rightarrow> Json outcome" where
  "copy_in p zIn =
    (if nUsed p + length zIn \<le> length (zBuf p) then
       Done (p\<lparr>zBuf := take (nUsed p) (zBuf p) @ zIn @ drop (nUsed p + length zIn) (zBuf p),
               nUsed := nUsed p + length zIn\<rparr>)
     else Undefined)"

text \<open>\<open>p->zBuf[p->nUsed++] = c\<close>.\<close>

definition put_char :: "Json \<Rightarrow> char \<Rightarrow> Json outcome" where
  "put_char p c =
    (if nUsed p < length (zBuf p) then
       Done (p\<lparr>zBuf := (zBuf p)[nUsed p := c], nUsed := nUsed p + 1\<rparr>)
     else Undefined)"

definition jsonAppendRaw :: "(nat \<Rightarrow> bool) \<Rightarrow> Json \<Rightarrow> string \<Rightarrow> Json outcome" where
  "jsonAppendRaw M p zIn =
    (if length zIn + nUsed p \<ge> Json.nAlloc p then
       andThen (jsonGrow M p (length zIn))
         (\<lambda>(rc, p1). if rc \<noteq> 0 then Done p1 else copy_in p1 zIn)
     else copy_in p zIn)"

definition jsonAppendChar :: "(nat \<Rightarrow> bool) \<Rightarrow> Json \<Rightarrow> char \<Rightarrow> Json outcome" where
  "jsonAppendChar M p c =
    (if nUsed p \<ge> Json.nAlloc p then
       andThen (jsonGrow M p 1)
         (\<lambda>(rc, p1). if rc \<noteq> 0 then Done p1 else put_char p1 c)
     else put_char p c)"

text \<open>
  The loop of \<open>jsonAppendString\<close> over the bytes \<open>zIn[i..N-1]\<close> still to be copied,
  closing quote included.
\<close>

fun jsonAppendString_loop :: "(nat \<Rightarrow> bool) \<Rightarrow> nat \<Rightarrow> Json \<Rightarrow> nat \<Rightarrow> string \<Rightarrow> Json outcome" where
  "jsonAppendString_loop M N p i [] = put_char p DQUOTE"
| "jsonAppendString_loop M N p i (c # cs) =
    (if c = DQUOTE \<or> c = BACKSLASH then
       (if nUsed p + N + 1 - i > Json.nAlloc p then
          andThen (jsonGrow M p (N + 1 - i))
            (\<lambda>(rc, p1). if rc \<noteq> 0 then Done p1
               else andThen (put_char p1 BACKSLASH) (\<lambda>p2.
                    andThen (put_char p2 c) (\<lambda>p3. jsonAppendString_loop M N p3 (i + 1) cs)))
        else andThen (put_char p BACKSLASH) (\<lambda>p2.
             andThen (put_char p2 c) (\<lambda>p3. jsonAppendString_loop M N p3 (i + 1) cs)))
     else andThen (put_char p c) (\<lambda>p3. jsonAppendString_loop M N p3 (i + 1) cs))"

definition jsonAppendString :: "(nat \<Rightarrow> bool) \<Rightarrow> Json \<Rightarrow> string \<Rightarrow> Json outcome" where
  "jsonAppendString M p zIn =
    (let N = length zIn in
     if N + nUsed p + 2 \<ge> Json.nAlloc p then
       andThen (jsonGrow M p (N + 2))
         (\<lambda>(rc, p1). if rc \<noteq> 0 then Done p1
            else andThen (put_char p1 DQUOTE) (\<lambda>p2. jsonAppendString_loop M N p2 0 zIn))
     else andThen (put_char p DQUOTE) (\<lambda>p2. jsonAppendString_loop M N p2 0 zIn))"

text \<open>
  \<open>jsonResult\<close> hands the first \<open>nUsed\<close> bytes to the context unless the accumulator
  has seen an allocation failure; its closing \<open>assert( p->bStatic )\<close> is a branch.
\<close>

definition jsonResult :: "Json \<Rightarrow> Json outcome" where
  "jsonResult p =
    (if \<not> Json.oom p then
       (if nUsed p \<le> length (zBuf p) then
          Done (jsonZero (p\<lparr>pCtx := ResultText (take (nUsed p) (zBuf p))\<rparr>))
        else Undefined)
     else if bStatic p then Done p else Undefined)"

subsection \<open>\<open>json_array(VALUE,...)\<close>\<close>

text \<open>
  The \<open>for\<close> loop of \<open>jsonArrayFunc\<close> over the remaining arguments. The flag of the
  result tells whether the loop ran to its end (\<open>True\<close>) or left the function through
  the \<open>return\<close> of the BLOB case (\<open>False\<close>).
\<close>

fun jsonArrayFunc_loop :: "(nat \<Rightarrow> bool) \<Rightarrow> Json \<Rightarrow> char \<Rightarrow> sqlite3_value list \<Rightarrow> (bool \<times> Json) outcome" where
  "jsonArrayFunc_loop M jx cSep [] = Done (True, jx)"
| "jsonArrayFunc_loop M jx cSep (v # argv) =
    andThen (jsonAppendRaw M jx [cSep]) (\<lambda>jx1.
      case v of
        SQLITE_NULL \<Rightarrow>
          andThen (jsonAppendRaw M jx1 ''null'') (\<lambda>jx2. jsonArrayFunc_loop M jx2 CHR '','' argv)
      | SQLITE_INTEGER z \<Rightarrow>
          andThen (jsonAppendRaw M jx1 z) (\<lambda>jx2. jsonArrayFunc_loop M jx2 CHR '','' argv)
      | SQLITE_FLOAT z \<Rightarrow>
          andThen (jsonAppendRaw M jx1 z) (\<lambda>jx2. jsonArrayFunc_loop M jx2 CHR '','' argv)
      | SQLITE_TEXT z \<Rightarrow>
          andThen (jsonAppendString M jx1 z) (\<lambda>jx2. jsonArrayFunc_loop M jx2 CHR '','' argv)
      | SQLITE_BLOB z \<Rightarrow>
          Done (False, (jsonZero jx1)\<lparr>pCtx := ResultError ''JSON cannot hold BLOB values''\<rparr>))"

text \<open>The function's effect is the final content of the context's result slot.\<close>

definition jsonArrayFunc :: "(nat \<Rightarrow> bool) \<Rightarrow> sqlite3_result \<Rightarrow> sqlite3_value list \<Rightarrow> sqlite3_result outcome" where
  "jsonArrayFunc M context argv =
    andThen (jsonArrayFunc_loop M (jsonInit context) CHR ''['' argv) (\<lambda>(finished, jx).
      if \<not> finished then Done (pCtx jx)
      else andThen (jsonAppendRaw M jx '']'') (\<lambda>jx1.
           andThen (jsonResult jx1) (\<lambda>jx2. Done (pCtx jx2))))"

subsection \<open>Parsed JSON: \<open>JsonNode\<close> and \<open>JsonParse\<close>\<close>

datatype json_type =
    JSON_NULL | JSON_TRUE | JSON_FALSE | JSON_INT | JSON_REAL | JSON_STRING
  | JSON_ARRAY | JSON_OBJECT

text \<open>
  \<open>n_field\<close> is the member \<open>n\<close> of the C struct. \<open>zJContent\<close> is a pointer into the
  text being parsed, kept as its offset, or the null pointer \<open>None\<close>.
\<close>

record JsonNode =
  eType :: json_type
  bRaw :: bool
  n_field :: nat
  zJContent :: "nat option"

text \<open>
  \<open>aNode\<close> lists the slots of the array that have been written, in order; the
  allocated size is \<open>nAlloc\<close>. The empty list with \<open>nNode = 0\<close> is the null pointer.
  The empty list with \<open>nNode \<noteq> 0\<close> is an array that has been freed while the structure
  still points to it (\<open>array_freed\<close>).
\<close>

record JsonParse =
  nNode :: nat
  nAlloc :: nat
  aNode :: "JsonNode list"
  zJson :: string
  oom :: bool

definition array_freed :: "JsonParse \<Rightarrow> bool" where
  "array_freed p = (aNode p = [] \<and> nNode p \<noteq> 0)"

definition sizeof_JsonNode :: nat where "sizeof_JsonNode = 16"

text \<open>
  A \<open>size_t\<close> value handed to a parameter of type \<open>int\<close>: its low 32 bits, read as a
  signed number.
\<close>

definition int_of_size :: "nat \<Rightarrow> int" where
  "int_of_size n =
    (if n mod 2 ^ 32 < 2 ^ 31 then int (n mod 2 ^ 32) else int (n mod 2 ^ 32) - 2 ^ 32)"

text \<open>
  \<open>jsonParseAddNode\<close>. The new size \<open>nNew\<close> is computed in \<open>u32\<close>. The byte count
  \<open>sizeof(JsonNode)*nNew\<close> reaches \<open>sqlite3_realloc\<close> as an \<open>int\<close>: when that is not
  positive, \<open>sqlite3_realloc\<close> frees the array and returns the null pointer, and the
  structure keeps pointing to the freed array; when it is positive, the allocator is
  asked for that many bytes, and an array that ends before slot \<open>nNode\<close> makes the
  write that follows undefined. Calling \<open>sqlite3_realloc\<close> on, or writing to, an array
  that has been freed is undefined.
\<close>

definition jsonParseAddNode ::
  "(nat \<Rightarrow> bool) \<Rightarrow> JsonParse \<Rightarrow> json_type \<Rightarrow> nat \<Rightarrow> nat option
     \<Rightarrow> (int \<times> JsonParse) outcome" where
  "jsonParseAddNode M pParse t k zContent =
    (let write = (\<lambda>p. Done (int (nNode p),
                   p\<lparr>aNode := aNode p @
                        [\<lparr>eType = t, bRaw = False, n_field = k, zJContent = zContent\<rparr>],
                     nNode := nNode p + 1\<rparr>))
     in if nNode pParse \<ge> nAlloc pParse then
          (if oom pParse then Done (- 1, pParse)
           else let nNew = (nAlloc pParse * 2 + 10) mod 2 ^ 32 in
             if nNew \<le> nNode pParse then Done (- 1, pParse\<lparr>oom := True\<rparr>)
             else if array_freed pParse then Undefined
             else let nByte = int_of_size (sizeof_JsonNode * nNew) in
               if nByte \<le> 0 then Done (- 1, pParse\<lparr>aNode := [], oom := True\<rparr>)
               else if \<not> M (nat nByte) then Done (- 1, pParse\<lparr>oom := True\<rparr>)
               else if nat nByte < sizeof_JsonNode * (nNode pParse + 1) then Undefined
               else write (pParse\<lparr>nAlloc := nNew\<rparr>))
        else if array_freed pParse then Undefined
        else write pParse)"

subsection \<open>The scanning loops of \<open>jsonParseValue\<close>\<close>

text \<open>\<open>while( isspace(z[i]) ){ i++; }\<close>\<close>

function skip_space :: "string \<Rightarrow> nat \<Rightarrow> nat" where
  "skip_space z i = (if isspace (zAt z i) then skip_space z (i + 1) else i)"
  by pat_completeness auto
termination
  by (relation "measure (\<lambda>(z, i). length z - i)")
     (auto simp: zAt_def isspace_def split: if_splits)

declare skip_space.simps [simp del]

text \<open>
  The string loop, entered with \<open>j\<close> just after the opening quote: the index of the
  closing quote, or \<open>None\<close> where the source returns \<open>-1\<close>.
\<close>

function scan_string :: "string \<Rightarrow> nat \<Rightarrow> nat option" where
  "scan_string z j =
    (let c = zAt z j in
     if c = NUL then None
     else if c = BACKSLASH then
       (if zAt z (j + 1) = NUL then None else scan_string z (j + 2))
     else if c = DQUOTE then Some j
     else scan_string z (j + 1))"
  by pat_completeness auto
termination
  by (relation "measure (\<lambda>(z, j). length z - j)")
     (auto simp: zAt_def split: if_splits)

declare scan_string.simps [simp del]

text \<open>
  The number loop, entered with \<open>j = i+1\<close>: the index it stops at and \<open>seenDP\<close>, or
  \<open>None\<close> where the source returns \<open>-1\<close> from inside the loop.
\<close>

function scan_number :: "string \<Rightarrow> nat \<Rightarrow> bool \<Rightarrow> bool \<Rightarrow> (nat \<times> bool) option" where
  "scan_number z j seenDP seenE =
    (let c = zAt z j in
     if is_digit c then scan_number z (j + 1) seenDP seenE
     else if c = CHR ''.'' then
       (if zAt z (j - 1) = CHR ''-'' then None
        else if seenDP then None
        else scan_number z (j + 1) True seenE)
     else if c = CHR ''e'' \<or> c = CHR ''E'' then
       (if (of_char (zAt z (j - 1)) :: nat) < of_char CHR ''0'' then None
        else if seenE then None
        else if zAt z (j + 1) = CHR ''+'' \<or> zAt z (j + 1) = CHR ''-''
          then scan_number z (j + 2) True True
          else scan_number z (j + 1) True True)
     else Some (j, seenDP))"
  by pat_completeness auto
termination
  by (relation "measure (\<lambda>(z, j, d, e). length z - j)")
     (auto simp: zAt_def is_digit_def split: if_splits)

declare scan_number.simps [simp del]

text \<open>\<open>strncmp(z+i, lit, strlen(lit))==0\<close>\<close>

definition strncmp_eq :: "string \<Rightarrow> nat \<Rightarrow> string \<Rightarrow> bool" where
  "strncmp_eq z i lit = (take (length lit) (drop i z) = lit)"

text \<open>
  The end of a non-empty container:
  \<open>pParse->aNode[iThis].n = pParse->nNode - iThis - 1; return j+1;\<close>
\<close>

definition close_container :: "JsonParse \<Rightarrow> int \<Rightarrow> nat \<Rightarrow> (int \<times> JsonParse) outcome" where
  "close_container p iThis j =
    (if 0 \<le> iThis \<and> nat iThis < length (aNode p) then
       Done (int (j + 1),
         p\<lparr>aNode := (aNode p)[nat iThis :=
              (aNode p ! nat iThis)\<lparr>n_field := nNode p - nat iThis - 1\<rparr>]\<rparr>)
     else Undefined)"

subsection \<open>\<open>jsonParseValue\<close>\<close>

text \<open>
  The branches of \<open>jsonParseValue\<close> that do not recurse, for the first character
  \<open>c = z[i]\<close> after the leading white space: string, \<open>null\<close>, \<open>true\<close>, \<open>false\<close>,
  number, \<open>}\<close>, \<open>]\<close>, and the final \<open>else\<close>. The return values \<open>-1\<close>, \<open>-2\<close>, \<open>-3\<close>
  are those of the source.
\<close>

definition parse_scalar ::
  "(nat \<Rightarrow> bool) \<Rightarrow> JsonParse \<Rightarrow> nat \<Rightarrow> (int \<times> JsonParse) outcome" where
  "parse_scalar M pParse i =
    (let z = zJson pParse; c = zAt z i in
     if c = DQUOTE then
       (case scan_string z (i + 1) of
          None \<Rightarrow> Done (- 1, pParse)
        | Some j \<Rightarrow>
            andThen (jsonParseAddNode M pParse JSON_STRING (j + 1 - i) (Some i))
              (\<lambda>(x, p1). Done (int (j + 1), p1)))
     else if c = CHR ''n'' \<and> strncmp_eq z i ''null'' \<and> \<not> isalnum (zAt z (i + 4)) then
       andThen (jsonParseAddNode M pParse JSON_NULL 0 None) (\<lambda>(x, p1). Done (int (i + 4), p1))
     else if c = CHR ''t'' \<and> strncmp_eq z i ''true'' \<and> \<not> isalnum (zAt z (i + 4)) then
       andThen (jsonParseAddNode M pParse JSON_TRUE 0 None) (\<lambda>(x, p1). Done (int (i + 4), p1))
     else if c = CHR ''f'' \<and> strncmp_eq z i ''false'' \<and> \<not> isalnum (zAt z (i + 5)) then
       andThen (jsonParseAddNode M pParse JSON_FALSE 0 None) (\<lambda>(x, p1). Done (int (i + 5), p1))
     else if c = CHR ''-'' \<or> is_digit c then
       (case scan_number z (i + 1) False False of
          None \<Rightarrow> Done (- 1, pParse)
        | Some (j, seenDP) \<Rightarrow>
            if (of_char (zAt z (j - 1)) :: nat) < of_char CHR ''0'' then Done (- 1, pParse)
            else andThen (jsonParseAddNode M pParse (if seenDP then JSON_REAL else JSON_INT)
                            (j - i) (Some i))
                   (\<lambda>(x, p1). Done (int j, p1)))
     else if c = CHR ''}'' then Done (- 2, pParse)
     else if c = CHR '']'' then Done (- 3, pParse)
     else Done (- 1, pParse))"

text \<open>
  What a \<open>for(;;)\<close> loop of a container does once a recursive call has returned
  \<open>x\<close>: it goes on at an index (\<open>Continue\<close>) or leaves \<open>jsonParseValue\<close> with a
  result (\<open>Return\<close>).
\<close>

datatype loop_step = Continue nat | Return "(int \<times> JsonParse) outcome"

text \<open>
  Array loop, lines 497-509. \<open>iThis\<close> is a \<open>u32\<close> in the source: the test
  \<open>iThis<0\<close> never holds and has no branch here, and after a failed
  \<open>jsonParseAddNode\<close> the variable holds \<open>2^32-1\<close>, kept here as \<open>-1\<close>: then
  \<open>iThis+1\<close> is \<open>0\<close> and \<open>aNode[iThis]\<close> lies outside the array.
\<close>

definition array_after_value :: "JsonParse \<Rightarrow> int \<Rightarrow> nat \<Rightarrow> int \<Rightarrow> loop_step" where
  "array_after_value p1 iThis j x =
    (if x < 0 then
       (if x = - 3 \<and> int (nNode p1) = iThis + 1 then Return (Done (int (j + 1), p1))
        else Return (Done (- 1, p1)))
     else
       (let j1 = skip_space (zJson p1) (nat x); c = zAt (zJson p1) j1 in
        if c = CHR '','' then Continue (j1 + 1)
        else if c \<noteq> CHR '']'' then Return (Done (- 1, p1))
        else Return (close_container p1 iThis j1)))"

text \<open>Object loop after the label has been parsed, lines 470-478.\<close>

definition object_after_label :: "JsonParse \<Rightarrow> int \<Rightarrow> nat \<Rightarrow> int \<Rightarrow> loop_step" where
  "object_after_label p1 iThis j x =
    (if x < 0 then
       (if x = - 2 \<and> int (nNode p1) = iThis + 1 then Return (Done (int (j + 1), p1))
        else Return (Done (- 1, p1)))
     else if nNode p1 = 0 \<or> nNode p1 > length (aNode p1) then Return Undefined
     else if eType (aNode p1 ! (nNode p1 - 1)) \<noteq> JSON_STRING then Return (Done (- 1, p1))
     else
       (let j1 = skip_space (zJson p1) (nat x) in
        if zAt (zJson p1) j1 \<noteq> CHR '':'' then Return (Done (- 1, p1))
        else Continue (j1 + 1)))"

text \<open>Object loop after the value has been parsed, lines 480-489.\<close>

definition object_after_value :: "JsonParse \<Rightarrow> int \<Rightarrow> int \<Rightarrow> loop_step" where
  "object_after_value p2 iThis x =
    (if x < 0 then Return (Done (- 1, p2))
     else
       (let j2 = skip_space (zJson p2) (nat x); c = zAt (zJson p2) j2 in
        if c = CHR '','' then Continue (j2 + 1)
        else if c \<noteq> CHR ''}'' then Return (Done (- 1, p2))
        else Return (close_container p2 iThis j2)))"

text \<open>
  The function and the two loops. Every call and every loop iteration takes one unit
  of fuel.
\<close>

function jsonParseValue :: "nat \<Rightarrow> (nat \<Rightarrow> bool) \<Rightarrow> JsonParse \<Rightarrow> nat \<Rightarrow> (int \<times> JsonParse) outcome"
  and object_loop :: "nat \<Rightarrow> (nat \<Rightarrow> bool) \<Rightarrow> JsonParse \<Rightarrow> int \<Rightarrow> nat \<Rightarrow> (int \<times> JsonParse) outcome"
  and array_loop :: "nat \<Rightarrow> (nat \<Rightarrow> bool) \<Rightarrow> JsonParse \<Rightarrow> int \<Rightarrow> nat \<Rightarrow> (int \<times> JsonParse) outcome"
where
  "jsonParseValue 0 M pParse i0 = OutOfFuel"
| "jsonParseValue (Suc fuel) M pParse i0 =
    (let i = skip_space (zJson pParse) i0; c = zAt (zJson pParse) i in
     if c = NUL then Done (0, pParse)
     else if c = CHR ''{'' then
       (case jsonParseAddNode M pParse JSON_OBJECT 0 None of
          OutOfFuel \<Rightarrow> OutOfFuel
        | Undefined \<Rightarrow> Undefined
        | Done (iThis, p1) \<Rightarrow> object_loop fuel M p1 iThis (i + 1))
     else if c = CHR ''['' then
       (case jsonParseAddNode M pParse JSON_ARRAY 0 None of
          OutOfFuel \<Rightarrow> OutOfFuel
        | Undefined \<Rightarrow> Undefined
        | Done (iThis, p1) \<Rightarrow> array_loop fuel M p1 iThis (i + 1))
     else parse_scalar M pParse i)"
| "object_loop 0 M pParse iThis j0 = OutOfFuel"
| "object_loop (Suc fuel) M pParse iThis j0 =
    (case jsonParseValue fuel M pParse (skip_space (zJson pParse) j0) of
       OutOfFuel \<Rightarrow> OutOfFuel
     | Undefined \<Rightarrow> Undefined
     | Done (x, p1) \<Rightarrow>
        (case object_after_label p1 iThis (skip_space (zJson pParse) j0) x of
           Return r \<Rightarrow> r
         | Continue j1 \<Rightarrow>
            (case jsonParseValue fuel M p1 j1 of
               OutOfFuel \<Rightarrow> OutOfFuel
             | Undefined \<Rightarrow> Undefined
             | Done (x2, p2) \<Rightarrow>
                (case object_after_value p2 iThis x2 of
                   Return r \<Rightarrow> r
                 | Continue j2 \<Rightarrow> object_loop fuel M p2 iThis j2))))"
| "array_loop 0 M pParse iThis j0 = OutOfFuel"
| "array_loop (Suc fuel) M pParse iThis j0 =
    (case jsonParseValue fuel M pParse (skip_space (zJson pParse) j0) of
       OutOfFuel \<Rightarrow> OutOfFuel
     | Undefined \<Rightarrow> Undefined
     | Done (x, p1) \<Rightarrow>
        (case array_after_value p1 iThis (skip_space (zJson pParse) j0) x of
           Return r \<Rightarrow> r
         | Continue j1 \<Rightarrow> array_loop fuel M p1 iThis j1))"
  by pat_completeness auto
termination
  by (relation "measure (\<lambda>x. case x of Inl (f, _) \<Rightarrow> f | Inr (Inl (f, _)) \<Rightarrow> f
                                    | Inr (Inr (f, _)) \<Rightarrow> f)") auto

subsection \<open>\<open>jsonParse\<close>\<close>

text \<open>
  \<open>zJson\<close> may be the null pointer (\<open>None\<close>); then the routine returns before it
  initialises \<open>pParse\<close>, which is why the caller's structure is an argument. On the error
  path \<open>sqlite3_free(pParse->aNode)\<close> is undefined for an array that has been freed
  already.
\<close>

definition jsonParse ::
  "nat \<Rightarrow> (nat \<Rightarrow> bool) \<Rightarrow> JsonParse \<Rightarrow> string option \<Rightarrow> (int \<times> JsonParse) outcome" where
  "jsonParse fuel M pParse zJson' =
    (case zJson' of
       None \<Rightarrow> Done (1, pParse)
     | Some z \<Rightarrow>
         andThen (jsonParseValue fuel M
                    \<lparr>nNode = 0, nAlloc = 0, aNode = [], zJson = z, oom = False\<rparr> 0)
           (\<lambda>(i, p).
              let i1 = (if i > 0 then
                          (if zAt z (skip_space z (nat i)) \<noteq> NUL then - 1
                           else int (skip_space z (nat i)))
                        else i)
              in if i1 < 0 then
                   (if array_freed p then Undefined
                    else Done (1, p\<lparr>aNode := [], nNode := 0, nAlloc := 0\<rparr>))
                 else Done (0, p)))"

subsection \<open>\<open>jsonRenderNode\<close>\<close>

text \<open>
  The \<open>n\<close> bytes a node's \<open>zJContent\<close> points to. The text in memory is \<open>z\<close> followed
  by its terminator; a null pointer or a span that leaves the text is undefined.
\<close>

definition node_bytes :: "string \<Rightarrow> JsonNode \<Rightarrow> string outcome" where
  "node_bytes z nd =
    (case zJContent nd of
       None \<Rightarrow> Undefined
     | Some ofst \<Rightarrow>
         if ofst + n_field nd \<le> length z + 1
         then Done (take (n_field nd) (drop ofst (z @ [NUL])))
         else Undefined)"

text \<open>
  The cases of the \<open>switch\<close> that do not recurse. A node is the pair of the array
  \<open>a\<close> and an index; \<open>pNode[j]\<close> outside the written slots is undefined.
\<close>

definition render_scalar :: "(nat \<Rightarrow> bool) \<Rightarrow> string \<Rightarrow> JsonNode \<Rightarrow> Json \<Rightarrow> (nat \<times> Json) outcome" where
  "render_scalar M z nd pOut =
    andThen
      (case eType nd of
         JSON_NULL \<Rightarrow> jsonAppendRaw M pOut ''null''
       | JSON_TRUE \<Rightarrow> jsonAppendRaw M pOut ''true''
       | JSON_FALSE \<Rightarrow> jsonAppendRaw M pOut ''false''
       | JSON_STRING \<Rightarrow>
           if bRaw nd then andThen (node_bytes z nd) (jsonAppendString M pOut)
           else andThen (node_bytes z nd) (jsonAppendRaw M pOut)
       | JSON_REAL \<Rightarrow> andThen (node_bytes z nd) (jsonAppendRaw M pOut)
       | JSON_INT \<Rightarrow> andThen (node_bytes z nd) (jsonAppendRaw M pOut)
       | JSON_ARRAY \<Rightarrow> Done pOut
       | JSON_OBJECT \<Rightarrow> Done pOut)
      (\<lambda>pOut1. Done (1, pOut1))"

text \<open>\<open>if( j>0 ) jsonAppendChar(pOut, ',');\<close>\<close>

definition render_sep :: "(nat \<Rightarrow> bool) \<Rightarrow> nat \<Rightarrow> Json \<Rightarrow> Json outcome" where
  "render_sep M j pOut = (if j > 0 then jsonAppendChar M pOut CHR '','' else Done pOut)"

text \<open>
  \<open>jsonRenderNode f M z a k pOut\<close> renders the node \<open>a[k]\<close>; the two loops are the
  \<open>while( j<pNode->n )\<close> of the array and object cases together with the closing
  bracket and the \<open>return j+1\<close>.
\<close>

function jsonRenderNode ::
    "nat \<Rightarrow> (nat \<Rightarrow> bool) \<Rightarrow> string \<Rightarrow> JsonNode list \<Rightarrow> nat \<Rightarrow> Json \<Rightarrow> (nat \<times> Json) outcome"
  and render_array_loop ::
    "nat \<Rightarrow> (nat \<Rightarrow> bool) \<Rightarrow> string \<Rightarrow> JsonNode list \<Rightarrow> nat \<Rightarrow> nat \<Rightarrow> Json \<Rightarrow> (nat \<times> Json) outcome"
  and render_object_loop ::
    "nat \<Rightarrow> (nat \<Rightarrow> bool) \<Rightarrow> string \<Rightarrow> JsonNode list \<Rightarrow> nat \<Rightarrow> nat \<Rightarrow> Json \<Rightarrow> (nat \<times> Json) outcome"
where
  "jsonRenderNode 0 M z a k pOut = OutOfFuel"
| "jsonRenderNode (Suc fuel) M z a k pOut =
    (if k \<ge> length a then Undefined
     else if eType (a ! k) = JSON_ARRAY then
       (case jsonAppendChar M pOut CHR ''['' of
          OutOfFuel \<Rightarrow> OutOfFuel
        | Undefined \<Rightarrow> Undefined
        | Done pOut1 \<Rightarrow> render_array_loop fuel M z a k 0 pOut1)
     else if eType (a ! k) = JSON_OBJECT then
       (case jsonAppendChar M pOut CHR ''{'' of
          OutOfFuel \<Rightarrow> OutOfFuel
        | Undefined \<Rightarrow> Undefined
        | Done pOut1 \<Rightarrow> render_object_loop fuel M z a k 0 pOut1)
     else render_scalar M z (a ! k) pOut)"
| "render_array_loop 0 M z a k j pOut = OutOfFuel"
| "render_array_loop (Suc fuel) M z a k j pOut =
    (if j < n_field (a ! k) then
       (case render_sep M j pOut of
          OutOfFuel \<Rightarrow> OutOfFuel
        | Undefined \<Rightarrow> Undefined
        | Done pOut1 \<Rightarrow>
           (case jsonRenderNode fuel M z a (k + (j + 1)) pOut1 of
              OutOfFuel \<Rightarrow> OutOfFuel
            | Undefined \<Rightarrow> Undefined
            | Done (r, pOut2) \<Rightarrow> render_array_loop fuel M z a k (j + r) pOut2))
     else andThen (jsonAppendChar M pOut CHR '']'') (\<lambda>pOut1. Done (j + 1, pOut1)))"
| "render_object_loop 0 M z a k j pOut = OutOfFuel"
| "render_object_loop (Suc fuel) M z a k j pOut =
    (if j < n_field (a ! k) then
       (case render_sep M j pOut of
          OutOfFuel \<Rightarrow> OutOfFuel
        | Undefined \<Rightarrow> Undefined
        | Done pOut1 \<Rightarrow>
           (case jsonRenderNode fuel M z a (k + (j + 1)) pOut1 of
              OutOfFuel \<Rightarrow> OutOfFuel
            | Undefined \<Rightarrow> Undefined
            | Done (r, pOut2) \<Rightarrow>
               (case jsonAppendChar M pOut2 CHR '':'' of
                  OutOfFuel \<Rightarrow> OutOfFuel
                | Undefined \<Rightarrow> Undefined
                | Done pOut3 \<Rightarrow>
                   (case jsonRenderNode fuel M z a (k + (j + r + 1)) pOut3 of
                      OutOfFuel \<Rightarrow> OutOfFuel
                    | Undefined \<Rightarrow> Undefined
                    | Done (r2, pOut4) \<Rightarrow>
                        render_object_loop fuel M z a k (j + r + r2) pOut4))))
     else andThen (jsonAppendChar M pOut CHR ''}'') (\<lambda>pOut1. Done (j + 1, pOut1)))"
  by pat_completeness auto
termination
  by (relation "measure (\<lambda>x. case x of Inl (f, _) \<Rightarrow> f | Inr (Inl (f, _)) \<Rightarrow> f
                                    | Inr (Inr (f, _)) \<Rightarrow> f)") auto

subsection \<open>\<open>jsonReturn\<close> and \<open>json_test1(JSON)\<close>\<close>

definition jsonReturn ::
  "nat \<Rightarrow> (nat \<Rightarrow> bool) \<Rightarrow> string \<Rightarrow> JsonNode list \<Rightarrow> nat \<Rightarrow> sqlite3_result \<Rightarrow> sqlite3_result outcome" where
  "jsonReturn fuel M z a k ctx =
    (if k \<ge> length a then Undefined
     else case eType (a ! k) of
       JSON_NULL \<Rightarrow> Done ResultNull
     | JSON_TRUE \<Rightarrow> Done (ResultInt 1)
     | JSON_FALSE \<Rightarrow> Done (ResultInt 0)
     | JSON_REAL \<Rightarrow> andThen (node_bytes z (a ! k)) (\<lambda>t. Done (ResultText t))
     | JSON_INT \<Rightarrow> andThen (node_bytes z (a ! k)) (\<lambda>t. Done (ResultText t))
     | JSON_STRING \<Rightarrow>
         if bRaw (a ! k) then andThen (node_bytes z (a ! k)) (\<lambda>t. Done (ResultText t))
         else Done ctx
     | JSON_ARRAY \<Rightarrow>
         andThen (jsonRenderNode fuel M z a k (jsonInit ctx)) (\<lambda>(r, s).
         andThen (jsonResult s) (\<lambda>s1. Done (pCtx s1)))
     | JSON_OBJECT \<Rightarrow>
         andThen (jsonRenderNode fuel M z a k (jsonInit ctx)) (\<lambda>(r, s).
         andThen (jsonResult s) (\<lambda>s1. Done (pCtx s1))))"

text \<open>
  \<open>jsonTest1Func\<close>; its argument is what \<open>sqlite3_value_text(argv[0])\<close> returns, and
  \<open>x\<close> is the uninitialised local \<open>JsonParse\<close>. After a successful parse the root
  \<open>x.aNode\<close> is dereferenced without a look at \<open>x.nNode\<close>.
\<close>

definition jsonTest1Func ::
  "nat \<Rightarrow> (nat \<Rightarrow> bool) \<Rightarrow> JsonParse \<Rightarrow> sqlite3_result \<Rightarrow> string option \<Rightarrow> sqlite3_result outcome" where
  "jsonTest1Func fuel M x ctx arg =
    andThen (jsonParse fuel M x arg) (\<lambda>(rc, x1).
      if rc \<noteq> 0 then Done ctx
      else jsonReturn fuel M (zJson x1) (aNode x1) 0 ctx)"


section \<open>Vocabulary of the properties\<close>

subsection \<open>Allocators and sample states\<close>

definition alloc_always :: "nat \<Rightarrow> bool" where
  "alloc_always k = True"

definition alloc_never :: "nat \<Rightarrow> bool" where
  "alloc_never k = False"

text \<open>An allocator that grants the requests of at most \<open>m\<close> bytes and no other.\<close>

definition alloc_upto :: "nat \<Rightarrow> nat \<Rightarrow> bool" where
  "alloc_upto m k = (k \<le> m)"

text \<open>The accumulator as \<open>jsonOom\<close> leaves it after a first allocation failure.\<close>

definition oom_state :: Json where
  "oom_state = jsonOom (jsonInit NoResult)"

text \<open>Some content of a caller's \<open>JsonParse\<close> before \<open>jsonParse\<close> initialises it.\<close>

definition stale_parse :: JsonParse where
  "stale_parse = \<lparr>nNode = 5, nAlloc = 7, aNode = [], zJson = ''x'', oom = True\<rparr>"

text \<open>The structure \<open>jsonParse\<close> leaves behind when it reports an error for \<open>z\<close>.\<close>

definition freed_parse :: "string \<Rightarrow> JsonParse" where
  "freed_parse z = \<lparr>nNode = 0, nAlloc = 0, aNode = [], zJson = z, oom = False\<rparr>"

text \<open>The structure after a parse that wrote the nodes \<open>ns\<close> into a first allocation.\<close>

definition parsed :: "string \<Rightarrow> JsonNode list \<Rightarrow> JsonParse" where
  "parsed z ns = \<lparr>nNode = length ns, nAlloc = 10, aNode = ns, zJson = z, oom = False\<rparr>"


text \<open>The text \<open>"a"\<close>, quotes included.\<close>

definition quoted_a :: string where
  "quoted_a = [DQUOTE, CHR ''a'', DQUOTE]"

subsection \<open>Well-formed states\<close>

text \<open>
  An accumulator whose \<open>nAlloc\<close> is the size of its storage and whose \<open>nUsed\<close> lies
  within it, as \<open>jsonInit\<close> makes it.
\<close>

definition wf_acc :: "Json \<Rightarrow> bool" where
  "wf_acc p = (nUsed p \<le> length (zBuf p) \<and> Json.nAlloc p = length (zBuf p))"

text \<open>The text an accumulator holds.\<close>

definition acc_text :: "Json \<Rightarrow> string" where
  "acc_text p = take (nUsed p) (zBuf p)"

text \<open>
  The sizes the node array takes when it grows from nothing: \<open>10\<close>, \<open>30\<close>, \<open>70\<close>, ...,
  each twice the one before plus ten. The largest whose byte count
  \<open>16 * 83886070 = 1342177120\<close> still is a positive \<open>int\<close> is \<open>max_nodes\<close>; the next one
  would need \<open>2684354400\<close> bytes.
\<close>

definition max_nodes :: nat where
  "max_nodes = 83886070"



subsection \<open>Nodes and sample parses\<close>

text \<open>A node as the parser writes it: kind, size or span length, offset of its span.\<close>

definition mk_node :: "json_type \<Rightarrow> nat \<Rightarrow> nat option \<Rightarrow> JsonNode" where
  "mk_node t k c = \<lparr>eType = t, bRaw = False, n_field = k, zJContent = c\<rparr>"

text \<open>The characters \<open>b\<close> between two quotes.\<close>

definition quoted :: "string \<Rightarrow> string" where
  "quoted b = DQUOTE # b @ [DQUOTE]"

text \<open>The structure after a parse that wrote the nodes \<open>ns\<close> and grew the array once.\<close>

definition grown_parse :: "string \<Rightarrow> JsonNode list \<Rightarrow> JsonParse" where
  "grown_parse z ns = \<lparr>nNode = length ns, nAlloc = 30, aNode = ns, zJson = z, oom = False\<rparr>"

text \<open>
  The structure after a parse that filled the first allocation of ten slots with the
  nodes \<open>ns\<close> and was refused the second.
\<close>

definition cut_parse :: "string \<Rightarrow> JsonNode list \<Rightarrow> JsonParse" where
  "cut_parse z ns = \<lparr>nNode = length ns, nAlloc = 10, aNode = ns, zJson = z, oom = True\<rparr>"

text \<open>
  The text \<open>{"a":1,"b":2,"c":3,"d":4,"e":5}\<close> of eleven nodes, and its first ten nodes
  as the parser leaves them when the eleventh, the value \<open>5\<close>, finds no room.
\<close>

definition five_members :: string where
  "five_members =
     ''{'' @ quoted ''a'' @ '':1,'' @ quoted ''b'' @ '':2,'' @ quoted ''c'' @ '':3,''
       @ quoted ''d'' @ '':4,'' @ quoted ''e'' @ '':5}''"

definition five_members_cut :: "JsonNode list" where
  "five_members_cut =
    [mk_node JSON_OBJECT 9 None,
     mk_node JSON_STRING 3 (Some 1), mk_node JSON_INT 1 (Some 5),
     mk_node JSON_STRING 3 (Some 7), mk_node JSON_INT 1 (Some 11),
     mk_node JSON_STRING 3 (Some 13), mk_node JSON_INT 1 (Some 17),
     mk_node JSON_STRING 3 (Some 19), mk_node JSON_INT 1 (Some 23),
     mk_node JSON_STRING 3 (Some 25)]"

text \<open>
  The text \<open>[0,{"a":1,"b":2,"c":3,"d":4}]\<close>, its eleven nodes, and its first ten nodes
  as the parser leaves them when the eleventh, the value \<open>4\<close>, finds no room.
\<close>

definition inner_members :: string where
  "inner_members =
     ''[0,{'' @ quoted ''a'' @ '':1,'' @ quoted ''b'' @ '':2,'' @ quoted ''c'' @ '':3,''
       @ quoted ''d'' @ '':4}]''"

definition inner_members_nodes :: "JsonNode list" where
  "inner_members_nodes =
    [mk_node JSON_ARRAY 10 None, mk_node JSON_INT 1 (Some 1),
     mk_node JSON_OBJECT 8 None,
     mk_node JSON_STRING 3 (Some 4), mk_node JSON_INT 1 (Some 8),
     mk_node JSON_STRING 3 (Some 10), mk_node JSON_INT 1 (Some 14),
     mk_node JSON_STRING 3 (Some 16), mk_node JSON_INT 1 (Some 20),
     mk_node JSON_STRING 3 (Some 22), mk_node JSON_INT 1 (Some 26)]"

definition inner_members_cut :: "JsonNode list" where
  "inner_members_cut =
    [mk_node JSON_ARRAY 9 None, mk_node JSON_INT 1 (Some 1),
     mk_node JSON_OBJECT 7 None,
     mk_node JSON_STRING 3 (Some 4), mk_node JSON_INT 1 (Some 8),
     mk_node JSON_STRING 3 (Some 10), mk_node JSON_INT 1 (Some 14),
     mk_node JSON_STRING 3 (Some 16), mk_node JSON_INT 1 (Some 20),
     mk_node JSON_STRING 3 (Some 22)]"


subsection \<open>Minimal JSON texts\<close>









text \<open>The text \<open>s\<close> stands at offset \<open>i\<close> of \<open>z\<close>.\<close>

definition text_at :: "string \<Rightarrow> nat \<Rightarrow> string \<Rightarrow> bool" where
  "text_at z i s = (take (length s) (drop i z) = s)"

text \<open>A character that ends a number or a literal.\<close>

definition stop_char :: "char \<Rightarrow> bool" where
  "stop_char c = (\<not> isalnum c \<and> c \<noteq> CHR ''.'')"






section \<open>Properties\<close>

subsection \<open>General facts\<close>

lemma andThen_Done:
  "andThen m k = Done b \<longleftrightarrow> (\<exists>a. m = Done a \<and> k a = Done b)"
  by (cases m) auto

lemma skip_space_stop: "\<not> isspace (zAt z i) \<Longrightarrow> skip_space z i = i"
  by (simp add: skip_space.simps)

lemma skip_space_step: "isspace (zAt z i) \<Longrightarrow> skip_space z i = skip_space z (Suc i)"
  by (subst skip_space.simps) simp

subsection \<open>The accumulator after an allocation failure\<close>

lemma jsonGrow_latched:
  "Json.oom p \<Longrightarrow> bStatic p \<Longrightarrow> jsonGrow M p N = Done (SQLITE_NOMEM, p)"
  by (simp add: jsonGrow_def Let_def)

lemma put_char_keeps:
  "put_char p c = Done p' \<Longrightarrow>
     Json.oom p' = Json.oom p \<and> bStatic p' = bStatic p \<and> Json.nAlloc p' = Json.nAlloc p
     \<and> pCtx p' = pCtx p \<and> length (zBuf p') = length (zBuf p) \<and> nUsed p' = nUsed p + 1
     \<and> nUsed p' \<le> length (zBuf p')"
  by (auto simp: put_char_def split: if_splits)

lemma copy_in_keeps:
  "copy_in p z = Done p' \<Longrightarrow>
     Json.oom p' = Json.oom p \<and> bStatic p' = bStatic p \<and> Json.nAlloc p' = Json.nAlloc p
     \<and> pCtx p' = pCtx p \<and> length (zBuf p') = length (zBuf p)
     \<and> nUsed p' = nUsed p + length z \<and> nUsed p' \<le> length (zBuf p')"
  by (auto simp: copy_in_def split: if_splits)

lemma put_char_fuel: "put_char p c \<noteq> OutOfFuel"
  by (simp add: put_char_def)

text \<open>
  The loop of \<open>jsonAppendString\<close> in the latched state: it never grows the buffer, and
  when it returns, \<open>nUsed\<close> has not gone back.
\<close>

lemma jsonAppendString_loop_latched:
  "Json.oom p \<Longrightarrow> bStatic p \<Longrightarrow> jsonAppendString_loop M N p i cs = Done p' \<Longrightarrow>
     Json.oom p' \<and> bStatic p' \<and> Json.nAlloc p' = Json.nAlloc p \<and> pCtx p' = pCtx p
     \<and> length (zBuf p') = length (zBuf p) \<and> nUsed p \<le> nUsed p'
     \<and> (nUsed p \<le> length (zBuf p) \<longrightarrow> nUsed p' \<le> length (zBuf p'))"
proof (induction cs arbitrary: p i)
  case Nil
  then show ?case using put_char_keeps[of p DQUOTE p'] by simp
next
  case (Cons c cs)
  show ?case
  proof (cases "c = DQUOTE \<or> c = BACKSLASH")
    case esc: True
    show ?thesis
    proof (cases "nUsed p + N + 1 - i > Json.nAlloc p")
      case True
      with esc Cons.prems show ?thesis
        by (simp add: jsonGrow_latched SQLITE_NOMEM_def)
    next
      case False
      with esc Cons.prems obtain p2 p3 where
        a: "put_char p BACKSLASH = Done p2" and b: "put_char p2 c = Done p3"
        and c: "jsonAppendString_loop M N p3 (i + 1) cs = Done p'"
        by (auto simp: andThen_Done)
      from put_char_keeps[OF a] put_char_keeps[OF b] Cons.prems
      have k: "Json.oom p3" "bStatic p3" "Json.nAlloc p3 = Json.nAlloc p" "pCtx p3 = pCtx p"
        "length (zBuf p3) = length (zBuf p)" "nUsed p \<le> nUsed p3"
        "nUsed p3 \<le> length (zBuf p3)"
        by simp_all
      from Cons.IH[OF k(1,2) c] k show ?thesis by simp
    qed
  next
    case False
    with Cons.prems obtain p3 where
      b: "put_char p c = Done p3" and c: "jsonAppendString_loop M N p3 (i + 1) cs = Done p'"
      by (auto simp: andThen_Done)
    from put_char_keeps[OF b] Cons.prems
    have k: "Json.oom p3" "bStatic p3" "Json.nAlloc p3 = Json.nAlloc p" "pCtx p3 = pCtx p"
      "length (zBuf p3) = length (zBuf p)" "nUsed p \<le> nUsed p3"
      "nUsed p3 \<le> length (zBuf p3)"
      by simp_all
    from Cons.IH[OF k(1,2) c] k show ?thesis by simp
  qed
qed

lemma jsonAppendString_loop_fuel:
  "Json.oom p \<Longrightarrow> bStatic p \<Longrightarrow> jsonAppendString_loop M N p i cs \<noteq> OutOfFuel"
proof (induction cs arbitrary: p i)
  case Nil
  then show ?case by (simp add: put_char_fuel)
next
  case (Cons c cs)
  have step: "andThen (put_char q d) (\<lambda>p3. jsonAppendString_loop M N p3 (i + 1) cs) \<noteq> OutOfFuel"
    if "Json.oom q" and "bStatic q" for q d
  proof (cases "put_char q d")
    case (Done p3)
    from put_char_keeps [OF Done] that have "Json.oom p3" "bStatic p3" by simp_all
    from Cons.IH [OF this] Done show ?thesis by simp
  qed (simp_all add: put_char_fuel)
  have esc: "andThen (put_char p BACKSLASH) (\<lambda>p2.
        andThen (put_char p2 c) (\<lambda>p3. jsonAppendString_loop M N p3 (i + 1) cs)) \<noteq> OutOfFuel"
  proof (cases "put_char p BACKSLASH")
    case (Done p2)
    from put_char_keeps [OF Done] Cons.prems have "Json.oom p2" "bStatic p2" by simp_all
    from step [OF this] Done show ?thesis by simp
  qed (simp_all add: put_char_fuel)
  from Cons.prems esc step [OF Cons.prems] show ?case
    by (auto simp: jsonGrow_latched SQLITE_NOMEM_def)
qed

lemma oom_state_simps:
  "Json.oom oom_state" "bStatic oom_state" "nUsed oom_state = 0"
  "Json.nAlloc oom_state = 100" "length (zBuf oom_state) = 100"
  by (simp_all add: oom_state_def jsonOom_def jsonReset_def jsonZero_def jsonInit_def)

text \<open>
  Claim C3, as amended. Let the out-of-memory flag be set and the accumulator be on its
  inline storage (the state \<open>jsonOom\<close> produces). No append enlarges or replaces the
  buffer: every append that returns leaves the flag set, the storage inline with the
  same capacity and size, and the error reported to the context; a well-formed
  accumulator stays well-formed. An append that fails the capacity test
  (\<open>jsonAppendRaw\<close> with \<open>N + nUsed \<ge> nAlloc\<close>, \<open>jsonAppendChar\<close> with \<open>nUsed \<ge> nAlloc\<close>,
  \<open>jsonAppendString\<close> with \<open>N + nUsed + 2 \<ge> nAlloc\<close>) is a no-op that leaves the whole
  accumulator unchanged. An append that passes the test still writes: on a well-formed
  accumulator \<open>jsonAppendRaw\<close> copies its \<open>N\<close> bytes to offset \<open>nUsed\<close> and adds \<open>N\<close> to
  \<open>nUsed\<close>, and \<open>jsonAppendChar\<close> stores its character and adds one; \<open>jsonAppendString\<close>
  either returns with \<open>nUsed\<close> increased or runs past the storage, which is undefined.
\<close>

theorem sticky_oom_latch:
  assumes "Json.oom p" and "bStatic p"
  shows "(length zIn + nUsed p \<ge> Json.nAlloc p \<longrightarrow> jsonAppendRaw M p zIn = Done p)
       \<and> (nUsed p \<ge> Json.nAlloc p \<longrightarrow> jsonAppendChar M p c = Done p)
       \<and> (length zIn + nUsed p + 2 \<ge> Json.nAlloc p \<longrightarrow> jsonAppendString M p zIn = Done p)
       \<and> (wf_acc p \<and> length zIn + nUsed p < Json.nAlloc p \<longrightarrow>
            jsonAppendRaw M p zIn
              = Done (p\<lparr>zBuf := take (nUsed p) (zBuf p) @ zIn
                                  @ drop (nUsed p + length zIn) (zBuf p),
                        nUsed := nUsed p + length zIn\<rparr>))
       \<and> (wf_acc p \<and> nUsed p < Json.nAlloc p \<longrightarrow>
            jsonAppendChar M p c
              = Done (p\<lparr>zBuf := (zBuf p)[nUsed p := c], nUsed := nUsed p + 1\<rparr>))
       \<and> (length zIn + nUsed p + 2 < Json.nAlloc p \<longrightarrow>
            jsonAppendString M p zIn = Undefined
            \<or> (\<exists>p'. jsonAppendString M p zIn = Done p' \<and> nUsed p < nUsed p'))
       \<and> (\<forall>p'. jsonAppendRaw M p zIn = Done p' \<or> jsonAppendChar M p c = Done p'
                 \<or> jsonAppendString M p zIn = Done p' \<longrightarrow>
              Json.oom p' \<and> bStatic p' \<and> Json.nAlloc p' = Json.nAlloc p
              \<and> length (zBuf p') = length (zBuf p) \<and> pCtx p' = pCtx p
              \<and> (wf_acc p \<longrightarrow> wf_acc p'))"
proof -
  have g: "\<And>N. jsonGrow M p N = Done (SQLITE_NOMEM, p)"
    using assms by (rule jsonGrow_latched)
  have r: "length zIn + nUsed p \<ge> Json.nAlloc p \<longrightarrow> jsonAppendRaw M p zIn = Done p"
    by (simp add: jsonAppendRaw_def g SQLITE_NOMEM_def)
  have ch: "nUsed p \<ge> Json.nAlloc p \<longrightarrow> jsonAppendChar M p c = Done p"
    by (simp add: jsonAppendChar_def g SQLITE_NOMEM_def)
  have s: "length zIn + nUsed p + 2 \<ge> Json.nAlloc p \<longrightarrow> jsonAppendString M p zIn = Done p"
    by (simp add: jsonAppendString_def g SQLITE_NOMEM_def Let_def)
  have rw: "wf_acc p \<and> length zIn + nUsed p < Json.nAlloc p \<longrightarrow>
            jsonAppendRaw M p zIn
              = Done (p\<lparr>zBuf := take (nUsed p) (zBuf p) @ zIn
                                  @ drop (nUsed p + length zIn) (zBuf p),
                        nUsed := nUsed p + length zIn\<rparr>)"
    by (simp add: jsonAppendRaw_def copy_in_def wf_acc_def)
  have cw: "wf_acc p \<and> nUsed p < Json.nAlloc p \<longrightarrow>
            jsonAppendChar M p c
              = Done (p\<lparr>zBuf := (zBuf p)[nUsed p := c], nUsed := nUsed p + 1\<rparr>)"
    by (simp add: jsonAppendChar_def put_char_def wf_acc_def)
  have keep: "Json.oom p' \<and> bStatic p' \<and> Json.nAlloc p' = Json.nAlloc p
      \<and> length (zBuf p') = length (zBuf p) \<and> pCtx p' = pCtx p \<and> (wf_acc p \<longrightarrow> wf_acc p')"
    if "Json.oom p'" "bStatic p'" "Json.nAlloc p' = Json.nAlloc p"
      "length (zBuf p') = length (zBuf p)" "pCtx p' = pCtx p"
      "nUsed p \<le> length (zBuf p) \<longrightarrow> nUsed p' \<le> length (zBuf p')" for p'
    using that by (simp add: wf_acc_def)
  have r': "Json.oom p' \<and> bStatic p' \<and> Json.nAlloc p' = Json.nAlloc p
      \<and> length (zBuf p') = length (zBuf p) \<and> pCtx p' = pCtx p \<and> (wf_acc p \<longrightarrow> wf_acc p')"
    if a: "jsonAppendRaw M p zIn = Done p'" for p'
  proof (cases "length zIn + nUsed p \<ge> Json.nAlloc p")
    case True
    with r a have "p' = p" by simp
    with assms show ?thesis by simp
  next
    case False
    with a have "copy_in p zIn = Done p'" by (simp add: jsonAppendRaw_def)
    from copy_in_keeps [OF this] assms show ?thesis by (intro keep) simp_all
  qed
  have ch': "Json.oom p' \<and> bStatic p' \<and> Json.nAlloc p' = Json.nAlloc p
      \<and> length (zBuf p') = length (zBuf p) \<and> pCtx p' = pCtx p \<and> (wf_acc p \<longrightarrow> wf_acc p')"
    if a: "jsonAppendChar M p c = Done p'" for p'
  proof (cases "nUsed p \<ge> Json.nAlloc p")
    case True
    with ch a have "p' = p" by simp
    with assms show ?thesis by simp
  next
    case False
    with a have "put_char p c = Done p'" by (simp add: jsonAppendChar_def)
    from put_char_keeps [OF this] assms show ?thesis by (intro keep) simp_all
  qed
  have fits: "jsonAppendString M p zIn
      = andThen (put_char p DQUOTE) (\<lambda>p2. jsonAppendString_loop M (length zIn) p2 0 zIn)"
    if "length zIn + nUsed p + 2 < Json.nAlloc p"
    using that by (simp add: jsonAppendString_def Let_def)
  have s': "Json.oom p' \<and> bStatic p' \<and> Json.nAlloc p' = Json.nAlloc p
      \<and> length (zBuf p') = length (zBuf p) \<and> pCtx p' = pCtx p \<and> (wf_acc p \<longrightarrow> wf_acc p')"
    if a: "jsonAppendString M p zIn = Done p'" for p'
  proof (cases "length zIn + nUsed p + 2 \<ge> Json.nAlloc p")
    case True
    with s a have "p' = p" by simp
    with assms show ?thesis by simp
  next
    case False
    with a fits obtain p2 where
      b: "put_char p DQUOTE = Done p2"
      and l: "jsonAppendString_loop M (length zIn) p2 0 zIn = Done p'"
      by (auto simp: andThen_Done)
    from put_char_keeps[OF b] assms
    have k: "Json.oom p2" "bStatic p2" "Json.nAlloc p2 = Json.nAlloc p" "pCtx p2 = pCtx p"
      "length (zBuf p2) = length (zBuf p)" "nUsed p2 \<le> length (zBuf p2)"
      by simp_all
    from jsonAppendString_loop_latched[OF k(1,2) l] k show ?thesis by (intro keep) simp_all
  qed
  have sw: "length zIn + nUsed p + 2 < Json.nAlloc p \<longrightarrow>
            jsonAppendString M p zIn = Undefined
            \<or> (\<exists>p'. jsonAppendString M p zIn = Done p' \<and> nUsed p < nUsed p')"
  proof
    assume f: "length zIn + nUsed p + 2 < Json.nAlloc p"
    show "jsonAppendString M p zIn = Undefined
            \<or> (\<exists>p'. jsonAppendString M p zIn = Done p' \<and> nUsed p < nUsed p')"
    proof (cases "put_char p DQUOTE")
      case OutOfFuel
      then show ?thesis by (simp add: put_char_fuel)
    next
      case Undefined
      with fits [OF f] show ?thesis by simp
    next
      case (Done p2)
      from put_char_keeps[OF Done] assms
      have k: "Json.oom p2" "bStatic p2" "nUsed p2 = nUsed p + 1" by simp_all
      show ?thesis
      proof (cases "jsonAppendString_loop M (length zIn) p2 0 zIn")
        case OutOfFuel
        with jsonAppendString_loop_fuel [OF k(1,2)] show ?thesis by simp
      next
        case Undefined
        with fits [OF f] Done show ?thesis by simp
      next
        case l: (Done p')
        from jsonAppendString_loop_latched[OF k(1,2) l] k(3) have "nUsed p < nUsed p'"
          by simp
        with fits [OF f] Done l show ?thesis by simp
      qed
    qed
  qed
  from r ch s rw cw sw r' ch' s' show ?thesis by blast
qed

theorem sticky_oom_latch_witness:
  "Json.oom oom_state \<and> bStatic oom_state
   \<and> jsonAppendRaw alloc_always oom_state (replicate 100 CHR ''a'') = Done oom_state"
  using sticky_oom_latch [of oom_state "replicate 100 CHR ''a''" alloc_always "CHR ''a''",
          THEN conjunct1]
  by (simp add: oom_state_simps)

text \<open>
  Both outcomes of \<open>jsonAppendString\<close> occur. With ninety bytes used of the hundred, a
  text of seven bytes passes the first test; if it starts with three quotes, the third
  fails the inner test and the append is abandoned after five bytes; if it starts with
  two quotes, the eleven bytes of its escaped form run past the storage.
\<close>

lemma jsonAppendString_after_oom_examples:
  "nUsed (oom_state\<lparr>nUsed := 90\<rparr>) + length [DQUOTE, DQUOTE, DQUOTE, CHR ''a'', CHR ''a'',
       CHR ''a'', CHR ''a''] + 2 < Json.nAlloc (oom_state\<lparr>nUsed := 90\<rparr>)
   \<and> (\<exists>p'. jsonAppendString M (oom_state\<lparr>nUsed := 90\<rparr>)
              [DQUOTE, DQUOTE, DQUOTE, CHR ''a'', CHR ''a'', CHR ''a'', CHR ''a''] = Done p'
           \<and> nUsed p' = 95)
   \<and> jsonAppendString M (oom_state\<lparr>nUsed := 90\<rparr>)
         [DQUOTE, DQUOTE, CHR ''a'', CHR ''a'', CHR ''a'', CHR ''a'', CHR ''a''] = Undefined"
  by (simp add: oom_state_def jsonOom_def jsonReset_def jsonZero_def jsonInit_def
      jsonAppendString_def put_char_def jsonGrow_def SQLITE_NOMEM_def Let_def)

text \<open>
  Claim C3 as stated fails: in the state \<open>jsonOom\<close> leaves (flag set, nothing reset
  since), \<open>jsonAppendRaw\<close> and \<open>jsonAppendChar\<close> still write into the inline storage
  and advance \<open>nUsed\<close>.
\<close>

theorem sticky_oom_counterexample:
  "Json.oom oom_state \<and> nUsed oom_state = 0 \<and>
   jsonAppendRaw alloc_never oom_state ''null''
     = Done (oom_state\<lparr>zBuf := ''null'' @ drop 4 (zBuf oom_state), nUsed := 4\<rparr>) \<and>
   jsonAppendChar alloc_never oom_state CHR ''x''
     = Done (oom_state\<lparr>zBuf := (zBuf oom_state)[0 := CHR ''x''], nUsed := 1\<rparr>)"
  by (simp add: oom_state_def jsonOom_def jsonReset_def jsonZero_def jsonInit_def
      jsonAppendRaw_def jsonAppendChar_def copy_in_def put_char_def)

subsection \<open>\<open>json_array\<close> without arguments\<close>

text \<open>
  Claim C5 at the empty argument list: the opening bracket is only ever appended as
  the separator in front of an argument, so with no argument the result is the
  one-character text \<open>]\<close> and not \<open>[]\<close>, whatever the allocator does.
\<close>

theorem json_array_no_arguments:
  "jsonArrayFunc M NoResult [] = Done (ResultText '']'')"
  by (simp add: jsonArrayFunc_def jsonInit_def jsonZero_def jsonAppendRaw_def copy_in_def
      jsonResult_def)

subsection \<open>Texts without a value\<close>

lemma zAt_Nil [simp]: "zAt [] i = NUL"
  by (simp add: zAt_def)

lemma isspace_NUL [simp]: "\<not> isspace NUL"
  by (simp add: isspace_def)

text \<open>
  Claim C4 at the empty text and at a text of two blanks: \<open>jsonParseValue\<close> returns
  \<open>0\<close> at the terminator, which \<open>jsonParse\<close> takes for neither \<open>i>0\<close> nor \<open>i<0\<close>, so the
  parse is reported as a success with no node and no node array; \<open>jsonTest1Func\<close>
  then dereferences the null \<open>x.aNode\<close>.
\<close>

theorem jsonParse_no_value_succeeds:
  "jsonParse (Suc fuel) M x (Some []) = Done (0, freed_parse [])
   \<and> jsonParse (Suc fuel) M x (Some ''  '') = Done (0, freed_parse ''  '')
   \<and> jsonTest1Func (Suc fuel) M x ctx (Some []) = Undefined"
proof -
  have a: "jsonParse (Suc fuel) M x (Some []) = Done (0, freed_parse [])"
    by (simp add: jsonParse_def freed_parse_def skip_space_stop)
  have "skip_space ''  '' 0 = 2"
    by (simp add: skip_space.simps zAt_def isspace_def)
  then have b: "jsonParse (Suc fuel) M x (Some ''  '') = Done (0, freed_parse ''  '')"
    by (simp add: jsonParse_def freed_parse_def zAt_def)
  have c: "jsonTest1Func (Suc fuel) M x ctx (Some []) = Undefined"
    by (simp add: jsonTest1Func_def a freed_parse_def jsonReturn_def)
  from a b c show ?thesis by simp
qed


subsection \<open>Evaluating the scanners on concrete texts\<close>

lemmas eval_simps =
  jsonParse_def parse_scalar_def jsonParseAddNode_def sizeof_JsonNode_def
  int_of_size_def array_freed_def
  skip_space.simps scan_number.simps scan_string.simps strncmp_eq_def
  zAt_def isspace_def is_digit_def isalnum_def alloc_always_def
  freed_parse_def parsed_def Let_def
  array_after_value_def object_after_label_def object_after_value_def close_container_def

text \<open>
  Claim C6. \<open>1.2.3\<close> and \<open>-\<close> are rejected, for any allocator. With an allocator
  that grants the node array, \<open>1e10\<close> gives one REAL node and \<open>007\<close> one INT node
  whose content is the whole text, unchanged.
\<close>

theorem number_grammar_examples:
  "jsonParse (Suc fuel) M x (Some ''1.2.3'') = Done (1, freed_parse ''1.2.3'')
   \<and> jsonParse (Suc fuel) M x (Some ''-'') = Done (1, freed_parse ''-'')
   \<and> jsonParse (Suc fuel) alloc_always x (Some ''1e10'')
       = Done (0, parsed ''1e10''
           [\<lparr>eType = JSON_REAL, bRaw = False, n_field = 4, zJContent = Some 0\<rparr>])
   \<and> node_bytes ''1e10'' \<lparr>eType = JSON_REAL, bRaw = False, n_field = 4, zJContent = Some 0\<rparr>
       = Done ''1e10''
   \<and> jsonParse (Suc fuel) alloc_always x (Some ''007'')
       = Done (0, parsed ''007''
           [\<lparr>eType = JSON_INT, bRaw = False, n_field = 3, zJContent = Some 0\<rparr>])
   \<and> node_bytes ''007'' \<lparr>eType = JSON_INT, bRaw = False, n_field = 3, zJContent = Some 0\<rparr>
       = Done ''007''"
proof -
  have a: "jsonParse (Suc fuel) M x (Some ''1.2.3'') = Done (1, freed_parse ''1.2.3'')"
    by (simp add: eval_simps)
  have b: "jsonParse (Suc fuel) M x (Some ''-'') = Done (1, freed_parse ''-'')"
    by (simp add: eval_simps)
  have c: "jsonParse (Suc fuel) alloc_always x (Some ''1e10'')
       = Done (0, parsed ''1e10''
           [\<lparr>eType = JSON_REAL, bRaw = False, n_field = 4, zJContent = Some 0\<rparr>])"
    by (simp add: eval_simps)
  have d: "jsonParse (Suc fuel) alloc_always x (Some ''007'')
       = Done (0, parsed ''007''
           [\<lparr>eType = JSON_INT, bRaw = False, n_field = 3, zJContent = Some 0\<rparr>])"
    by (simp add: eval_simps)
  from a b c d show ?thesis by (simp add: node_bytes_def)
qed




lemma null_then_alnum_fails:
  assumes "isalnum c"
  shows "jsonParse (Suc fuel) M x (Some (''null'' @ c # r)) = Done (1, freed_parse (''null'' @ c # r))"
proof -
  have sk: "skip_space (CHR ''n'' # CHR ''u'' # CHR ''l'' # CHR ''l'' # c # r) 0 = 0"
    by (simp add: skip_space_stop zAt_def isspace_def)
  show ?thesis
    using assms
    apply (simp add: jsonParse_def sk)
    apply (simp add: zAt_def)
    apply (simp add: parse_scalar_def Let_def zAt_def strncmp_eq_def is_digit_def)
    apply (simp add: freed_parse_def array_freed_def)
    done
qed

lemma true_then_alnum_fails:
  assumes "isalnum c"
  shows "jsonParse (Suc fuel) M x (Some (''true'' @ c # r)) = Done (1, freed_parse (''true'' @ c # r))"
proof -
  have sk: "skip_space (CHR ''t'' # CHR ''r'' # CHR ''u'' # CHR ''e'' # c # r) 0 = 0"
    by (simp add: skip_space_stop zAt_def isspace_def)
  show ?thesis
    using assms
    apply (simp add: jsonParse_def sk)
    apply (simp add: zAt_def)
    apply (simp add: parse_scalar_def Let_def zAt_def strncmp_eq_def is_digit_def)
    apply (simp add: freed_parse_def array_freed_def)
    done
qed

lemma false_then_alnum_fails:
  assumes "isalnum c"
  shows "jsonParse (Suc fuel) M x (Some (''false'' @ c # r)) = Done (1, freed_parse (''false'' @ c # r))"
proof -
  have sk: "skip_space (CHR ''f'' # CHR ''a'' # CHR ''l'' # CHR ''s'' # CHR ''e'' # c # r) 0 = 0"
    by (simp add: skip_space_stop zAt_def isspace_def)
  show ?thesis
    using assms
    apply (simp add: jsonParse_def sk)
    apply (simp add: zAt_def)
    apply (simp add: parse_scalar_def Let_def zAt_def strncmp_eq_def is_digit_def)
    apply (simp add: freed_parse_def array_freed_def)
    done
qed

text \<open>
  Claim C7. A text that starts with \<open>null\<close>, \<open>true\<close> or \<open>false\<close> immediately followed
  by an alphanumeric character is a syntax error, whatever follows and whatever the
  allocator does; each literal on its own parses to a single node of its kind.
\<close>

theorem literal_boundary:
  assumes "isalnum c"
  shows "jsonParse (Suc fuel) M x (Some (''null'' @ c # r)) = Done (1, freed_parse (''null'' @ c # r))
       \<and> jsonParse (Suc fuel) M x (Some (''true'' @ c # r)) = Done (1, freed_parse (''true'' @ c # r))
       \<and> jsonParse (Suc fuel) M x (Some (''false'' @ c # r)) = Done (1, freed_parse (''false'' @ c # r))
       \<and> jsonParse (Suc fuel) alloc_always x (Some ''null'')
           = Done (0, parsed ''null''
               [\<lparr>eType = JSON_NULL, bRaw = False, n_field = 0, zJContent = None\<rparr>])
       \<and> jsonParse (Suc fuel) alloc_always x (Some ''true'')
           = Done (0, parsed ''true''
               [\<lparr>eType = JSON_TRUE, bRaw = False, n_field = 0, zJContent = None\<rparr>])
       \<and> jsonParse (Suc fuel) alloc_always x (Some ''false'')
           = Done (0, parsed ''false''
               [\<lparr>eType = JSON_FALSE, bRaw = False, n_field = 0, zJContent = None\<rparr>])"
proof -
  have n: "jsonParse (Suc fuel) alloc_always x (Some ''null'')
           = Done (0, parsed ''null''
               [\<lparr>eType = JSON_NULL, bRaw = False, n_field = 0, zJContent = None\<rparr>])"
    by (simp add: eval_simps)
  have t: "jsonParse (Suc fuel) alloc_always x (Some ''true'')
           = Done (0, parsed ''true''
               [\<lparr>eType = JSON_TRUE, bRaw = False, n_field = 0, zJContent = None\<rparr>])"
    by (simp add: eval_simps)
  have f: "jsonParse (Suc fuel) alloc_always x (Some ''false'')
           = Done (0, parsed ''false''
               [\<lparr>eType = JSON_FALSE, bRaw = False, n_field = 0, zJContent = None\<rparr>])"
    by (simp add: eval_simps)
  from null_then_alnum_fails [OF assms] true_then_alnum_fails [OF assms]
       false_then_alnum_fails [OF assms] n t f
  show ?thesis by blast
qed

theorem literal_boundary_witness:
  "isalnum CHR ''a''
   \<and> jsonParse 1 alloc_always stale_parse (Some ''nullable'') = Done (1, freed_parse ''nullable'')
   \<and> jsonParse 1 alloc_always stale_parse (Some ''null'')
       = Done (0, parsed ''null''
           [\<lparr>eType = JSON_NULL, bRaw = False, n_field = 0, zJContent = None\<rparr>])"
proof -
  have a: "isalnum CHR ''a''"
    by (simp add: isalnum_def)
  from literal_boundary [OF a, of 0 alloc_always stale_parse "''ble''"] a
  show ?thesis by simp
qed


subsection \<open>Invariants of the node array\<close>

lemma parse_scalar_cases:
  "parse_scalar M p i = Done (x, p') \<Longrightarrow>
     p' = p \<or> (\<exists>t k c y. jsonParseAddNode M p t k c = Done (y, p'))"
  unfolding parse_scalar_def Let_def
  by (auto simp: andThen_Done split: option.splits prod.splits if_splits)

lemma object_after_label_Return:
  "object_after_label p1 iThis j x = Return (Done (x', p')) \<Longrightarrow> p' = p1"
  by (auto simp: object_after_label_def Let_def split: if_splits)

lemma object_after_value_Return:
  "object_after_value p2 iThis x = Return (Done (x', p')) \<Longrightarrow>
     p' = p2 \<or> (\<exists>j. close_container p2 iThis j = Done (x', p'))"
  by (auto simp: object_after_value_def Let_def split: if_splits)

lemma array_after_value_Return:
  "array_after_value p1 iThis j x = Return (Done (x', p')) \<Longrightarrow>
     p' = p1 \<or> (\<exists>j1. close_container p1 iThis j1 = Done (x', p'))"
  by (auto simp: array_after_value_def Let_def split: if_splits)

text \<open>
  A property of the parse state that adding a node and closing a container keep is
  kept by \<open>jsonParseValue\<close> and its loops.
\<close>

lemma parse_preserves:
  assumes add: "\<And>p t k c y p'. I p \<Longrightarrow> jsonParseAddNode M p t k c = Done (y, p') \<Longrightarrow> I p'"
    and close: "\<And>p iThis j x p'. I p \<Longrightarrow> close_container p iThis j = Done (x, p') \<Longrightarrow> I p'"
  shows "(\<forall>p i x p'. I p \<longrightarrow> jsonParseValue f M p i = Done (x, p') \<longrightarrow> I p')
       \<and> (\<forall>p iThis j x p'. I p \<longrightarrow> object_loop f M p iThis j = Done (x, p') \<longrightarrow> I p')
       \<and> (\<forall>p iThis j x p'. I p \<longrightarrow> array_loop f M p iThis j = Done (x, p') \<longrightarrow> I p')"
proof (induction f)
  case 0
  show ?case by simp
next
  case (Suc f)
  then have ihv: "\<And>p i x p'. I p \<Longrightarrow> jsonParseValue f M p i = Done (x, p') \<Longrightarrow> I p'"
    and iho: "\<And>p iThis j x p'. I p \<Longrightarrow> object_loop f M p iThis j = Done (x, p') \<Longrightarrow> I p'"
    and iha: "\<And>p iThis j x p'. I p \<Longrightarrow> array_loop f M p iThis j = Done (x, p') \<Longrightarrow> I p'"
    by blast+
  have v: "I p'" if i: "I p" and r: "jsonParseValue (Suc f) M p i = Done (x, p')" for p i x p'
  proof -
    let ?k = "skip_space (zJson p) i"
    let ?c = "zAt (zJson p) ?k"
    consider (nul) "?c = NUL" | (obj) "?c \<noteq> NUL" "?c = CHR ''{''"
      | (arr) "?c \<noteq> NUL" "?c \<noteq> CHR ''{''" "?c = CHR ''[''"
      | (sca) "?c \<noteq> NUL" "?c \<noteq> CHR ''{''" "?c \<noteq> CHR ''[''"
      by blast
    then show ?thesis
    proof cases
      case nul
      with r i show ?thesis by (simp add: Let_def)
    next
      case obj
      with r obtain y p1 where a: "jsonParseAddNode M p JSON_OBJECT 0 None = Done (y, p1)"
        and l: "object_loop f M p1 y (?k + 1) = Done (x, p')"
        by (auto simp: Let_def split: outcome.splits)
      from iho [OF add [OF i a] l] show ?thesis .
    next
      case arr
      with r obtain y p1 where a: "jsonParseAddNode M p JSON_ARRAY 0 None = Done (y, p1)"
        and l: "array_loop f M p1 y (?k + 1) = Done (x, p')"
        by (auto simp: Let_def split: outcome.splits)
      from iha [OF add [OF i a] l] show ?thesis .
    next
      case sca
      with r have "parse_scalar M p ?k = Done (x, p')" by (simp add: Let_def)
      from parse_scalar_cases [OF this] add [OF i] i show ?thesis by blast
    qed
  qed
  have o: "I p'" if i: "I p" and r: "object_loop (Suc f) M p iThis j = Done (x, p')"
    for p iThis j x p'
  proof -
    from r obtain x1 p1 where
      c1: "jsonParseValue f M p (skip_space (zJson p) j) = Done (x1, p1)"
      by (auto split: outcome.splits)
    have i1: "I p1" using ihv [OF i c1] .
    show ?thesis
    proof (cases "object_after_label p1 iThis (skip_space (zJson p) j) x1")
      case (Return r1)
      with r c1 have "r1 = Done (x, p')" by simp
      with Return object_after_label_Return i1 show ?thesis by blast
    next
      case (Continue j1)
      with r c1 obtain x2 p2 where
        c2: "jsonParseValue f M p1 j1 = Done (x2, p2)"
        by (auto split: outcome.splits)
      have i2: "I p2" using ihv [OF i1 c2] .
      show ?thesis
      proof (cases "object_after_value p2 iThis x2")
        case (Return r2)
        with r c1 c2 Continue have "r2 = Done (x, p')" by simp
        with Return object_after_value_Return [of p2 iThis x2 x p'] i2 close
        show ?thesis by blast
      next
        case c: (Continue j2)
        with r c1 c2 Continue have "object_loop f M p2 iThis j2 = Done (x, p')" by simp
        from iho [OF i2 this] show ?thesis .
      qed
    qed
  qed
  have a: "I p'" if i: "I p" and r: "array_loop (Suc f) M p iThis j = Done (x, p')"
    for p iThis j x p'
  proof -
    from r obtain x1 p1 where
      c1: "jsonParseValue f M p (skip_space (zJson p) j) = Done (x1, p1)"
      by (auto split: outcome.splits)
    have i1: "I p1" using ihv [OF i c1] .
    show ?thesis
    proof (cases "array_after_value p1 iThis (skip_space (zJson p) j) x1")
      case (Return r1)
      with r c1 have "r1 = Done (x, p')" by simp
      with Return array_after_value_Return [of p1 iThis _ x1 x p'] i1 close
      show ?thesis by blast
    next
      case (Continue j1)
      with r c1 have "array_loop f M p1 iThis j1 = Done (x, p')" by simp
      from iha [OF i1 this] show ?thesis .
    qed
  qed
  from v o a show ?case by blast
qed

lemma jsonParseValue_preserves:
  assumes "\<And>p t k c y p'. I p \<Longrightarrow> jsonParseAddNode M p t k c = Done (y, p') \<Longrightarrow> I p'"
    and "\<And>p iThis j x p'. I p \<Longrightarrow> close_container p iThis j = Done (x, p') \<Longrightarrow> I p'"
    and "I p" and "jsonParseValue f M p i = Done (x, p')"
  shows "I p'"
proof -
  have "\<forall>p i x p'. I p \<longrightarrow> jsonParseValue f M p i = Done (x, p') \<longrightarrow> I p'"
    using parse_preserves [where I = I and M = M and f = f] assms(1,2) by blast
  with assms(3,4) show ?thesis by blast
qed

lemma add_keeps_not_raw:
  "\<forall>nd \<in> set (aNode p). \<not> bRaw nd \<Longrightarrow> jsonParseAddNode M p t k c = Done (y, p') \<Longrightarrow>
     \<forall>nd \<in> set (aNode p'). \<not> bRaw nd"
  by (auto simp: jsonParseAddNode_def Let_def split: if_splits)

lemma close_keeps_not_raw:
  assumes "\<forall>nd \<in> set (aNode p). \<not> bRaw nd" and "close_container p iThis j = Done (x, p')"
  shows "\<forall>nd \<in> set (aNode p'). \<not> bRaw nd"
proof
  fix nd assume "nd \<in> set (aNode p')"
  with assms(2) have "nd \<in> set ((aNode p)[nat iThis :=
        (aNode p ! nat iThis)\<lparr>n_field := nNode p - nat iThis - 1\<rparr>])"
    and inr: "nat iThis < length (aNode p)"
    by (auto simp: close_container_def split: if_splits)
  then have "nd \<in> set (aNode p) \<or> nd = (aNode p ! nat iThis)\<lparr>n_field := nNode p - nat iThis - 1\<rparr>"
    using set_update_subset_insert [of "aNode p" "nat iThis"] by auto
  with assms(1) inr show "\<not> bRaw nd" by auto
qed

lemma jsonParse_not_raw:
  assumes "jsonParse fuel M x (Some z) = Done (rc, p)"
  shows "\<forall>nd \<in> set (aNode p). \<not> bRaw nd"
proof -
  let ?p0 = "\<lparr>nNode = 0, nAlloc = 0, aNode = [], zJson = z, oom = False\<rparr>"
  from assms obtain i p1 where
    v: "jsonParseValue fuel M ?p0 0 = Done (i, p1)" and
    p: "p = p1 \<or> p = p1\<lparr>aNode := [], nNode := 0, nAlloc := 0\<rparr>"
    by (auto simp: jsonParse_def andThen_Done Let_def split: if_splits)
  have "\<forall>nd \<in> set (aNode p1). \<not> bRaw nd"
  proof (rule jsonParseValue_preserves
      [where I = "\<lambda>p. \<forall>nd \<in> set (aNode p). \<not> bRaw nd", OF _ _ _ v])
    show "\<forall>nd \<in> set (aNode q'). \<not> bRaw nd"
      if "\<forall>nd \<in> set (aNode q). \<not> bRaw nd" and "jsonParseAddNode M q t k c = Done (y, q')"
      for q t k c y q'
      using that by (rule add_keeps_not_raw)
    show "\<forall>nd \<in> set (aNode q'). \<not> bRaw nd"
      if "\<forall>nd \<in> set (aNode q). \<not> bRaw nd" and "close_container q iThis j = Done (xx, q')"
      for q iThis j xx q'
      using that by (rule close_keeps_not_raw)
    show "\<forall>nd \<in> set (aNode ?p0). \<not> bRaw nd" by simp
  qed
  with p show ?thesis by auto
qed

text \<open>
  Claim C9. Whatever the text and the allocator, no node of the array \<open>jsonParse\<close>
  returns has \<open>bRaw\<close> set; and \<open>jsonRenderNode\<close> on a STRING node of that array copies
  the node's span with \<open>jsonAppendRaw\<close>, it does not go through \<open>jsonAppendString\<close>.
\<close>

theorem parser_never_makes_raw_nodes:
  assumes "jsonParse fuel M x (Some z) = Done (rc, p)"
  shows "(\<forall>nd \<in> set (aNode p). \<not> bRaw nd)
       \<and> (\<forall>k < length (aNode p). eType (aNode p ! k) = JSON_STRING \<longrightarrow>
            jsonRenderNode (Suc g) M' z' (aNode p) k pOut
              = andThen (andThen (node_bytes z' (aNode p ! k)) (jsonAppendRaw M' pOut))
                  (\<lambda>pOut1. Done (1, pOut1)))"
proof -
  have nr: "\<forall>nd \<in> set (aNode p). \<not> bRaw nd"
    using assms by (rule jsonParse_not_raw)
  then have "\<forall>k < length (aNode p). \<not> bRaw (aNode p ! k)" by simp
  then have "\<forall>k < length (aNode p). eType (aNode p ! k) = JSON_STRING \<longrightarrow>
            jsonRenderNode (Suc g) M' z' (aNode p) k pOut
              = andThen (andThen (node_bytes z' (aNode p ! k)) (jsonAppendRaw M' pOut))
                  (\<lambda>pOut1. Done (1, pOut1))"
    by (simp add: render_scalar_def)
  with nr show ?thesis by blast
qed

theorem parser_never_makes_raw_nodes_witness:
  "jsonParse 1 alloc_always stale_parse (Some quoted_a)
     = Done (0, parsed quoted_a
         [\<lparr>eType = JSON_STRING, bRaw = False, n_field = 3, zJContent = Some 0\<rparr>])
   \<and> \<not> bRaw (hd (aNode (parsed quoted_a
         [\<lparr>eType = JSON_STRING, bRaw = False, n_field = 3, zJContent = Some 0\<rparr>])))
   \<and> jsonRenderNode 1 alloc_always quoted_a
         [\<lparr>eType = JSON_STRING, bRaw = False, n_field = 3, zJContent = Some 0\<rparr>] 0
         (jsonInit NoResult)
       = andThen (jsonAppendRaw alloc_always (jsonInit NoResult) quoted_a)
           (\<lambda>pOut1. Done (1, pOut1))"
proof -
  have e: "jsonParse 1 alloc_always stale_parse (Some quoted_a)
     = Done (0, parsed quoted_a
         [\<lparr>eType = JSON_STRING, bRaw = False, n_field = 3, zJContent = Some 0\<rparr>])"
    by (simp add: eval_simps quoted_a_def)
  from parser_never_makes_raw_nodes [OF e, of 0 alloc_always quoted_a "jsonInit NoResult"] e
  show ?thesis by (simp add: parsed_def node_bytes_def quoted_a_def)
qed


subsection \<open>The node array after a refused allocation\<close>

lemmas parse_fuel =
  jsonParseValue.simps(2) [where fuel = "pred_numeral k" for k, folded numeral_eq_Suc]
  object_loop.simps(2) [where fuel = "pred_numeral k" for k, folded numeral_eq_Suc]
  array_loop.simps(2) [where fuel = "pred_numeral k" for k, folded numeral_eq_Suc]

lemma five_members_parse:
  "jsonParse 12 (alloc_upto 160) x (Some five_members)
     = Done (0, cut_parse five_members five_members_cut)"
  by (simp add: eval_simps parse_fuel alloc_upto_def five_members_def five_members_cut_def
      quoted_def mk_node_def cut_parse_def)

lemma inner_members_parse:
  "jsonParse 12 (alloc_upto 160) x (Some inner_members)
     = Done (0, cut_parse inner_members inner_members_cut)"
  by (simp add: eval_simps parse_fuel alloc_upto_def inner_members_def inner_members_cut_def
      quoted_def mk_node_def cut_parse_def)

lemma inner_members_full_parse:
  "jsonParse 12 alloc_always x (Some inner_members)
     = Done (0, grown_parse inner_members inner_members_nodes)"
  by (simp add: eval_simps parse_fuel inner_members_def inner_members_nodes_def
      quoted_def mk_node_def grown_parse_def)

lemma five_members_render:
  "jsonRenderNode 12 M five_members five_members_cut 0 (jsonInit ctx) = Undefined"
  by code_simp

lemma inner_members_render:
  "jsonRenderNode 12 M inner_members inner_members_cut 2 (jsonInit ctx) = Undefined"
  by code_simp

text \<open>
  Claim C2 fails in the code when an allocation is refused. The text
  \<open>[0,{"a":1,"b":2,"c":3,"d":4}]\<close> has eleven nodes, eight of them inside the object at
  index 2. With an allocator that grants the first ten slots (160 bytes) and refuses
  the growth to thirty (480 bytes), \<open>jsonParseAddNode\<close> fails for the value \<open>4\<close>,
  \<open>jsonParseValue\<close> does not look at its result, and \<open>jsonParse\<close> returns \<open>0\<close> without a
  look at \<open>oom\<close>. The object at index 2 then has the size 7, its last label has no
  value, and \<open>jsonRenderNode\<close> at index 2 does not return 8: it reads the slot behind
  the array, whatever the allocator and the context of the accumulator.
\<close>

theorem refused_growth_breaks_subtree_size:
  "jsonParse 12 alloc_always x (Some inner_members)
     = Done (0, grown_parse inner_members inner_members_nodes)
   \<and> n_field (aNode (grown_parse inner_members inner_members_nodes) ! 2) = 8
   \<and> jsonParse 12 (alloc_upto 160) x (Some inner_members)
     = Done (0, cut_parse inner_members inner_members_cut)
   \<and> nNode (cut_parse inner_members inner_members_cut) = 10
   \<and> oom (cut_parse inner_members inner_members_cut)
   \<and> eType (aNode (cut_parse inner_members inner_members_cut) ! 2) = JSON_OBJECT
   \<and> n_field (aNode (cut_parse inner_members inner_members_cut) ! 2) = 7
   \<and> jsonRenderNode 12 M inner_members (aNode (cut_parse inner_members inner_members_cut)) 2
         (jsonInit ctx) = Undefined"
proof -
  have a: "aNode (cut_parse inner_members inner_members_cut) = inner_members_cut"
    by (simp add: cut_parse_def)
  have "nNode (cut_parse inner_members inner_members_cut) = 10"
    "oom (cut_parse inner_members inner_members_cut)"
    "eType (inner_members_cut ! 2) = JSON_OBJECT" "n_field (inner_members_cut ! 2) = 7"
    "n_field (aNode (grown_parse inner_members inner_members_nodes) ! 2) = 8"
    by (simp_all add: cut_parse_def grown_parse_def inner_members_cut_def
        inner_members_nodes_def mk_node_def)
  with inner_members_parse [of x] inner_members_full_parse [of x]
    inner_members_render [of M ctx] a
  show ?thesis by simp
qed

text \<open>
  Claim C10 fails in the code when an allocation is refused. On the text
  \<open>{"a":1,"b":2,"c":3,"d":4,"e":5}\<close>, with the same allocator, \<open>jsonParse\<close> returns \<open>0\<close>
  with ten nodes, the value \<open>5\<close> missing. The root is an object of size
  \<open>9 = nNode - 1\<close>, but \<open>jsonRenderNode\<close> at index 0 does not consume the array and
  return \<open>10\<close>: it reads the slot behind the array, and so does \<open>jsonTest1Func\<close> on
  this text.
\<close>

theorem refused_growth_breaks_root_render:
  "jsonParse 12 (alloc_upto 160) x (Some five_members)
     = Done (0, cut_parse five_members five_members_cut)
   \<and> nNode (cut_parse five_members five_members_cut) = 10
   \<and> oom (cut_parse five_members five_members_cut)
   \<and> eType (aNode (cut_parse five_members five_members_cut) ! 0) = JSON_OBJECT
   \<and> n_field (aNode (cut_parse five_members five_members_cut) ! 0) = 9
   \<and> jsonRenderNode 12 M five_members (aNode (cut_parse five_members five_members_cut)) 0
         (jsonInit ctx) = Undefined
   \<and> jsonTest1Func 12 (alloc_upto 160) x ctx (Some five_members) = Undefined"
proof -
  have a: "aNode (cut_parse five_members five_members_cut) = five_members_cut"
    "zJson (cut_parse five_members five_members_cut) = five_members"
    by (simp_all add: cut_parse_def)
  have b: "nNode (cut_parse five_members five_members_cut) = 10"
    "oom (cut_parse five_members five_members_cut)"
    "eType (five_members_cut ! 0) = JSON_OBJECT" "n_field (five_members_cut ! 0) = 9"
    "0 < length five_members_cut"
    by (simp_all add: cut_parse_def five_members_cut_def mk_node_def)
  from b(3,5) five_members_render [of "alloc_upto 160" ctx]
  have "jsonReturn 12 (alloc_upto 160) five_members five_members_cut 0 ctx = Undefined"
    by (simp add: jsonReturn_def)
  with five_members_parse [of x] a
  have "jsonTest1Func 12 (alloc_upto 160) x ctx (Some five_members) = Undefined"
    by (simp add: jsonTest1Func_def)
  with five_members_parse [of x] five_members_render [of M ctx] a b show ?thesis by simp
qed

subsection \<open>Appending to a well-formed accumulator\<close>

lemma wf_acc_jsonZero [simp]: "wf_acc (jsonZero p)"
  by (simp add: wf_acc_def jsonZero_def)

lemma wf_acc_jsonInit [simp]: "wf_acc (jsonInit ctx)"
  by (simp add: jsonInit_def)

lemma wf_acc_jsonOom [simp]: "wf_acc (jsonOom p)"
  by (simp add: jsonOom_def jsonReset_def)

lemma jsonGrow_ok_props:
  assumes "jsonGrow M p N = Done (SQLITE_OK, p1)" and "wf_acc p"
  shows "wf_acc p1 \<and> nUsed p1 = nUsed p \<and> acc_text p1 = acc_text p
       \<and> Json.oom p1 = Json.oom p \<and> pCtx p1 = pCtx p
       \<and> Json.nAlloc p1 = (if N < Json.nAlloc p then Json.nAlloc p * 2
                             else Json.nAlloc p + N + 100)"
proof (cases "bStatic p")
  case True
  with assms show ?thesis
    by (simp add: jsonGrow_def Let_def SQLITE_OK_def SQLITE_NOMEM_def wf_acc_def acc_text_def
        split: if_splits) auto
next
  case False
  with assms show ?thesis
    by (simp add: jsonGrow_def Let_def SQLITE_OK_def SQLITE_NOMEM_def wf_acc_def acc_text_def
        split: if_splits) auto
qed

lemma jsonGrow_total:
  assumes "wf_acc p"
  shows "(\<exists>p1. jsonGrow M p N = Done (SQLITE_OK, p1))
       \<or> (\<exists>p1. jsonGrow M p N = Done (SQLITE_NOMEM, p1) \<and> wf_acc p1)"
proof -
  have "nUsed p \<le> length (zBuf p)" and "nUsed p \<le> Json.nAlloc p"
    using assms by (simp_all add: wf_acc_def)
  then show ?thesis
    using assms by (simp add: jsonGrow_def Let_def)
qed


lemma copy_in_wf:
  assumes "wf_acc p" and "nUsed p + length s \<le> Json.nAlloc p"
  shows "\<exists>p'. copy_in p s = Done p' \<and> wf_acc p' \<and> acc_text p' = acc_text p @ s
           \<and> Json.oom p' = Json.oom p \<and> pCtx p' = pCtx p"
  using assms
  by (auto simp: copy_in_def wf_acc_def acc_text_def)

lemma put_char_wf:
  assumes "wf_acc p" and "nUsed p < Json.nAlloc p"
  shows "\<exists>p'. put_char p c = Done p' \<and> wf_acc p' \<and> acc_text p' = acc_text p @ [c]
           \<and> Json.oom p' = Json.oom p \<and> pCtx p' = pCtx p"
  using assms
  by (auto simp: put_char_def wf_acc_def acc_text_def take_Suc_conv_app_nth)

text \<open>Whatever the allocator does, the two plain appends keep an accumulator well-formed.\<close>

lemma jsonAppendRaw_wf:
  assumes "wf_acc p"
  shows "\<exists>p'. jsonAppendRaw M p s = Done p' \<and> wf_acc p'"
proof (cases "length s + nUsed p \<ge> Json.nAlloc p")
  case False
  then show ?thesis
    using copy_in_wf [OF assms, of s] by (auto simp: jsonAppendRaw_def)
next
  case True
  from jsonGrow_total [OF assms, of M "length s"] show ?thesis
  proof (elim disjE exE conjE)
    fix p1 assume "jsonGrow M p (length s) = Done (SQLITE_NOMEM, p1)" "wf_acc p1"
    with True show ?thesis by (simp add: jsonAppendRaw_def SQLITE_NOMEM_def)
  next
    fix p1 assume g: "jsonGrow M p (length s) = Done (SQLITE_OK, p1)"
    from jsonGrow_ok_props [OF g assms] assms
    have w: "wf_acc p1" and "nUsed p1 + length s \<le> Json.nAlloc p1"
      by (auto simp: wf_acc_def split: if_splits)
    from copy_in_wf [OF this] g True show ?thesis
      by (auto simp: jsonAppendRaw_def SQLITE_OK_def)
  qed
qed

lemma jsonAppendChar_wf:
  assumes "wf_acc p"
  shows "\<exists>p'. jsonAppendChar M p c = Done p' \<and> wf_acc p'"
proof (cases "nUsed p \<ge> Json.nAlloc p")
  case False
  then show ?thesis
    using put_char_wf [OF assms, of c] by (auto simp: jsonAppendChar_def)
next
  case True
  from jsonGrow_total [OF assms, of M 1] show ?thesis
  proof (elim disjE exE conjE)
    fix p1 assume "jsonGrow M p 1 = Done (SQLITE_NOMEM, p1)" "wf_acc p1"
    with True show ?thesis by (simp add: jsonAppendChar_def SQLITE_NOMEM_def)
  next
    fix p1 assume g: "jsonGrow M p 1 = Done (SQLITE_OK, p1)"
    from jsonGrow_ok_props [OF g assms] assms
    have w: "wf_acc p1" and "nUsed p1 < Json.nAlloc p1"
      by (auto simp: wf_acc_def split: if_splits)
    from put_char_wf [OF this] g True show ?thesis
      by (auto simp: jsonAppendChar_def SQLITE_OK_def)
  qed
qed




subsection \<open>Adding a node when every request is granted\<close>





text \<open>
  The array cannot grow beyond \<open>max_nodes\<close> slots, whatever the allocator: the byte
  count of the next size is negative as an \<open>int\<close>, \<open>sqlite3_realloc\<close> frees the array and
  the structure is left pointing to it.
\<close>

lemma jsonParseAddNode_limit:
  assumes "nNode p = max_nodes" and "nAlloc p = max_nodes" and "\<not> oom p"
    and "aNode p \<noteq> []"
  shows "jsonParseAddNode M p t k c = Done (- 1, p\<lparr>aNode := [], oom := True\<rparr>)"
    and "array_freed (p\<lparr>aNode := [], oom := True\<rparr>)"
  using assms
  by (simp_all add: jsonParseAddNode_def Let_def max_nodes_def sizeof_JsonNode_def
      int_of_size_def array_freed_def)



subsection \<open>Texts at an offset\<close>

lemma text_at_Nil [simp]: "text_at z i []"
  by (simp add: text_at_def)






lemma zAt_end [simp]: "zAt z (length z) = NUL"
  by (simp add: zAt_def)

subsection \<open>The scanners on valid strings and numbers\<close>



lemma stop_char_examples [simp]:
  "stop_char NUL" "stop_char CHR '',''" "stop_char CHR '']''" "stop_char CHR ''}''"
  by (simp_all add: stop_char_def isalnum_def is_digit_def)









subsection \<open>Parsing the text of a valid scalar\<close>











subsection \<open>Parsing the text of a valid array or object\<close>

















subsection \<open>Rendering the nodes of a valid value\<close>



















subsection \<open>The number of nodes of a value\<close>




subsection \<open>Parsing a minimal text and rendering the result\<close>







end
